theory Spec2Isabelle
  imports Main
begin

section \<open>C primitives\<close>

text \<open>
  A C function whose pointer or array read goes out of range has no defined result.
  Such a step is the value \<open>Fault\<close>; every other run is \<open>Ret v\<close>. The integers of the
  source (\<open>int\<close> indices, order numbers, counts) are HOL integers: child counts and
  YANG order numbers stay far below \<open>2 ^ 31\<close>, so no operation here wraps.
\<close>

datatype 'a outcome = Fault | Ret 'a

text \<open>Integer division of C truncates towards zero.\<close>

definition c_div :: "int \<Rightarrow> int \<Rightarrow> int" where
  "c_div a b = sgn a * sgn b * (\<bar>a\<bar> div \<bar>b\<bar>)"

text \<open>
  \<open>strcmp\<close> of the C library compares bytes as unsigned values. Only the sign of its
  result is fixed by the standard; the model returns \<open>-1\<close>, \<open>0\<close> or \<open>1\<close>.
\<close>

fun strcmp :: "string \<Rightarrow> string \<Rightarrow> int" where
  "strcmp [] [] = 0"
| "strcmp [] (b # bs) = - 1"
| "strcmp (a # as) [] = 1"
| "strcmp (a # as) (b # bs) =
     (if a = b then strcmp as bs
      else if (of_char a :: nat) < of_char b then - 1 else 1)"

section \<open>Schema graph\<close>

datatype rfc_6020 =
    Y_ANYDATA | Y_ANYXML | Y_CASE | Y_CHOICE | Y_CONFIG | Y_CONTAINER | Y_INPUT | Y_LEAF
  | Y_LEAF_LIST | Y_LIST | Y_MODULE | Y_NAMESPACE | Y_ORDERED_BY | Y_OUTPUT | Y_PREFIX
  | Y_RPC | Y_TYPE | Y_UNKNOWN

datatype cv_type =
    CGV_ERR | CGV_INT8 | CGV_INT16 | CGV_INT32 | CGV_INT64
  | CGV_UINT8 | CGV_UINT16 | CGV_UINT32 | CGV_UINT64
  | CGV_DEC64 | CGV_BOOL | CGV_STRING | CGV_EMPTY

text \<open>
  Modelled from the spec: the result of \<open>yang_type_get\<close> (clixon_yang_type.c is not part
  of the sources). Section 6 lists for each statement its resolved type and the
  decimal64 fraction digits. The call fails (\<open>Type_error\<close>, return value below zero), or
  it succeeds with the argument of the resolved type statement, which is absent when
  the type does not reduce to a base kind.
\<close>

datatype type_resolution =
    Type_error
  | Type_resolved (restype: "string option") (fraction: nat)

text \<open>
  Modelled from the spec: the statement record of clixon_yang.h, which is not part of
  the sources. Section 3 and section 6 give a statement its keyword, argument, ordered
  children, order index, owning module, key-name cache (for \<open>list\<close>), resolved type and
  config flag. \<open>yang_order\<close>, \<open>yang_config\<close> and \<open>yang_type_get\<close> of the source are the
  selectors of that name; \<open>ys_modname\<close> is the name of the module that
  \<open>ys_real_module\<close> returns and \<open>yang_type2cv\<close> the value kind of the resolved type.
\<close>

datatype yang_stmt = Yang_stmt
  (ys_keyword: rfc_6020)
  (ys_argument: string)
  (ys_stmt: "yang_stmt list")
  (yang_order: int)
  (yang_config: bool)
  (ys_cvec: "string list")
  (yang_type_get: type_resolution)
  (yang_type2cv: cv_type)
  (ys_modname: string)

text \<open>
  Modelled from the spec: \<open>yang_find\<close> of clixon_yang.c (not part of the sources): the
  first child statement with the given keyword and, when an argument is given, with
  that argument.
\<close>

definition yang_find :: "yang_stmt \<Rightarrow> rfc_6020 \<Rightarrow> string option \<Rightarrow> yang_stmt option" where
  "yang_find yn keyword argument =
     find (\<lambda>ys. ys_keyword ys = keyword \<and>
                (case argument of None \<Rightarrow> True | Some a \<Rightarrow> ys_argument ys = a))
          (ys_stmt yn)"

section \<open>Tree nodes\<close>

text \<open>
  Modelled from the spec: the typed scalar of section 4.A. The values themselves belong
  to the CLIgen library; their parser and their comparison are parameters of the
  model (\<open>cv_env\<close> below).
\<close>

datatype cg_var =
    CV_INT int | CV_DEC64 int nat | CV_BOOL bool | CV_STRING string | CV_EMPTY

datatype cxobj_type = CX_ELMNT | CX_ATTR | CX_BODY

text \<open>
  Modelled from the spec: the node record of clixon_xml.c (not part of the sources),
  the tagged variant of section 3 in one constructor as in the C struct: type, name,
  optional prefix, value (of an attribute or body), bound statement, cached typed
  value and child vector. A pointer to a child is the index of the child in its
  parent's vector.
\<close>

datatype cxobj = Cxobj
  (xml_type: cxobj_type)
  (xml_name: string)
  (xml_prefix: "string option")
  (xml_value: string)
  (xml_spec: "yang_stmt option")
  (xml_cv: "cg_var option")
  (xml_childvec: "cxobj list")

text \<open>
  Modelled from the spec: the accessors of clixon_xml.c (not part of the sources) over
  that record. \<open>xml_child_i\<close> checks the upper bound of the index only; \<open>xml_body\<close> is
  the text of the first body child; \<open>xml_find_body\<close> is the body of the first child of
  the given name.
\<close>

definition xml_child_nr :: "cxobj \<Rightarrow> int" where
  "xml_child_nr x = int (length (xml_childvec x))"

definition xml_child_i :: "cxobj \<Rightarrow> int \<Rightarrow> cxobj option outcome" where
  "xml_child_i x i =
     (if i < 0 then Fault
      else if i < xml_child_nr x then Ret (Some (xml_childvec x ! nat i))
      else Ret None)"

definition xml_body :: "cxobj \<Rightarrow> string option" where
  "xml_body x = map_option xml_value (find (\<lambda>c. xml_type c = CX_BODY) (xml_childvec x))"

definition xml_find_body :: "cxobj \<Rightarrow> string \<Rightarrow> string option" where
  "xml_find_body x name =
     (case find (\<lambda>c. strcmp name (xml_name c) = 0) (xml_childvec x) of
        None \<Rightarrow> None
      | Some c \<Rightarrow> xml_body c)"

text \<open>The position of the first element of a list that satisfies a test.\<close>

fun find_pos :: "('a \<Rightarrow> bool) \<Rightarrow> 'a list \<Rightarrow> nat option" where
  "find_pos P [] = None"
| "find_pos P (x # xs) = (if P x then Some 0 else map_option Suc (find_pos P xs))"

text \<open>
  Modelled from the spec: \<open>xml_find\<close> and \<open>xml_find_body_obj\<close> of clixon_xml.c (not part
  of the sources): the first child of the given name, and the first element child of
  the given name whose body is the given text.
\<close>

definition xml_find :: "cxobj \<Rightarrow> string \<Rightarrow> nat option" where
  "xml_find x name = find_pos (\<lambda>c. strcmp name (xml_name c) = 0) (xml_childvec x)"

definition xml_find_body_obj :: "cxobj \<Rightarrow> string \<Rightarrow> string \<Rightarrow> nat option" where
  "xml_find_body_obj x name val =
     find_pos (\<lambda>c. xml_type c = CX_ELMNT \<and> strcmp name (xml_name c) = 0 \<and>
                   (case xml_body c of None \<Rightarrow> False | Some b \<Rightarrow> strcmp b val = 0))
              (xml_childvec x)"

section \<open>Comparing one child with a query: \<open>xml_cmp1\<close>\<close>

text \<open>
  The loop of \<open>xml_cmp1\<close> over the keys of a list. \<open>n\<close> keys remain, \<open>keyvec\<close> and
  \<open>keyval\<close> are the arrays from the current index on, \<open>match\<close> is the variable of the
  source. Reading an array past its end is a fault.
\<close>

fun xml_cmp1_keys :: "cxobj \<Rightarrow> nat \<Rightarrow> string list \<Rightarrow> string list \<Rightarrow> int \<Rightarrow> int outcome" where
  "xml_cmp1_keys x 0 keyvec keyval match = Ret match"
| "xml_cmp1_keys x (Suc n) (keyname # keyvec) (key # keyval) match =
     (case xml_find_body x keyname of
        None \<Rightarrow> Ret match
      | Some b \<Rightarrow>
          (if strcmp key b \<noteq> 0 then Ret (strcmp key b)
           else xml_cmp1_keys x n keyvec keyval (strcmp key b)))"
| "xml_cmp1_keys x (Suc n) keyvec keyval match = Fault"

definition ordered_by_user :: "yang_stmt \<Rightarrow> bool" where
  "ordered_by_user y = (yang_find y Y_ORDERED_BY (Some ''user'') \<noteq> None)"

text \<open>
  \<open>userorder\<close> is the out-parameter: \<open>None\<close> for a null pointer, \<open>Some b\<close> for a pointer
  to a variable holding \<open>b\<close>. The result carries the return value and the variable after
  the call.
\<close>

definition xml_cmp1 ::
  "cxobj \<Rightarrow> yang_stmt \<Rightarrow> string \<Rightarrow> rfc_6020 \<Rightarrow> int \<Rightarrow> string list \<Rightarrow> string list \<Rightarrow>
   bool option \<Rightarrow> (int \<times> bool option) outcome" where
  "xml_cmp1 x y name keyword keynr keyvec keyval userorder =
     (let uo1 = (case userorder of
                   None \<Rightarrow> None
                 | Some b \<Rightarrow> Some (b \<or> \<not> yang_config y));
          uo2 = (case uo1 of
                   None \<Rightarrow> None
                 | Some b \<Rightarrow> Some (b \<or> ordered_by_user y))
      in
        if keyword = Y_CONTAINER \<or> keyword = Y_LEAF then
          Ret (strcmp name (xml_name x), uo1)
        else if keyword = Y_LEAF_LIST then
          (case xml_body x of
             None \<Rightarrow> Ret (1, uo2)
           | Some b \<Rightarrow>
               (case keyval of
                  [] \<Rightarrow> Fault
                | k0 # _ \<Rightarrow> Ret (strcmp k0 b, uo2)))
        else if keyword = Y_LIST then
          (case xml_cmp1_keys x (nat keynr) keyvec keyval 0 of
             Fault \<Rightarrow> Fault
           | Ret m \<Rightarrow> Ret (m, uo2))
        else Ret (0, uo1))"

section \<open>Binary search: \<open>xml_search\<close>\<close>

text \<open>
  The two loops of \<open>xml_search_userorder\<close>. The first runs \<open>i\<close> upwards from \<open>mid + 1\<close>:
  \<open>xs\<close> are the children from index \<open>i\<close> on. The second runs downwards from \<open>mid - 1\<close>:
  \<open>k\<close> is \<open>i + 1\<close>. The statement of the child goes to \<open>xml_cmp1\<close> with a null
  \<open>userorder\<close>, where it is not read.

  Modelled from the spec: \<open>yang_order\<close> on the statement of a child. The source passes
  \<open>xml_spec(xc)\<close> on without a test, here and in \<open>xml_insert_pos\<close>; \<open>yang_order\<close>
  (clixon_yang.c, not part of the sources) reads the parent link of its argument, so a
  child without a statement is a fault.
\<close>

fun userorder_up ::
  "cxobj list \<Rightarrow> nat \<Rightarrow> string \<Rightarrow> int \<Rightarrow> rfc_6020 \<Rightarrow> int \<Rightarrow> string list \<Rightarrow> string list \<Rightarrow>
   nat option outcome" where
  "userorder_up [] i name yangi keyword keynr keyvec keyval = Ret None"
| "userorder_up (xc # xs) i name yangi keyword keynr keyvec keyval =
     (case xml_spec xc of
        None \<Rightarrow> Fault
      | Some y \<Rightarrow>
          if yangi \<noteq> yang_order y then Ret None
          else (case xml_cmp1 xc y name keyword keynr keyvec keyval None of
                  Fault \<Rightarrow> Fault
                | Ret (m, _) \<Rightarrow>
                    if m = 0 then Ret (Some i)
                    else userorder_up xs (Suc i) name yangi keyword keynr keyvec keyval))"

fun userorder_down ::
  "cxobj \<Rightarrow> nat \<Rightarrow> string \<Rightarrow> int \<Rightarrow> rfc_6020 \<Rightarrow> int \<Rightarrow> string list \<Rightarrow> string list \<Rightarrow>
   nat option outcome" where
  "userorder_down x0 0 name yangi keyword keynr keyvec keyval = Ret None"
| "userorder_down x0 (Suc i) name yangi keyword keynr keyvec keyval =
     (case xml_child_i x0 (int i) of
        Fault \<Rightarrow> Fault
      | Ret None \<Rightarrow> Fault
      | Ret (Some xc) \<Rightarrow>
          (case xml_spec xc of
             None \<Rightarrow> Fault
           | Some y \<Rightarrow>
               if yangi \<noteq> yang_order y then Ret None
               else (case xml_cmp1 xc y name keyword keynr keyvec keyval None of
                       Fault \<Rightarrow> Fault
                     | Ret (m, _) \<Rightarrow>
                         if m = 0 then Ret (Some i)
                         else userorder_down x0 i name yangi keyword keynr keyvec keyval)))"

definition xml_search_userorder ::
  "cxobj \<Rightarrow> string \<Rightarrow> int \<Rightarrow> int \<Rightarrow> rfc_6020 \<Rightarrow> int \<Rightarrow> string list \<Rightarrow> string list \<Rightarrow>
   nat option outcome" where
  "xml_search_userorder x0 name yangi mid keyword keynr keyvec keyval =
     (if mid < 0 then Fault
      else
        case userorder_up (drop (nat (mid + 1)) (xml_childvec x0)) (nat (mid + 1))
               name yangi keyword keynr keyvec keyval of
          Fault \<Rightarrow> Fault
        | Ret (Some i) \<Rightarrow> Ret (Some i)
        | Ret None \<Rightarrow>
            userorder_down x0 (nat mid) name yangi keyword keynr keyvec keyval)"


lemma c_div_2_bounds: "low \<le> upper \<Longrightarrow> low \<le> c_div (low + upper) 2 \<and> c_div (low + upper) 2 \<le> upper"
  unfolding c_div_def by (cases "0 \<le> low + upper") (auto simp: sgn_if)

function xml_search1 ::
  "cxobj \<Rightarrow> string \<Rightarrow> int \<Rightarrow> rfc_6020 \<Rightarrow> int \<Rightarrow> string list \<Rightarrow> string list \<Rightarrow> int \<Rightarrow> int \<Rightarrow>
   nat option outcome" where
  "xml_search1 x0 name yangi keyword keynr keyvec keyval low upper =
     (if upper < low then Ret None
      else
        let mid = c_div (low + upper) 2 in
        if mid \<ge> xml_child_nr x0 then Ret None
        else
          case xml_child_i x0 mid of
            Fault \<Rightarrow> Fault
          | Ret None \<Rightarrow> Fault
          | Ret (Some xc) \<Rightarrow>
              (case xml_spec xc of
                 None \<Rightarrow> Ret None
               | Some y \<Rightarrow>
                   if yangi - yang_order y = 0 then
                     (case xml_cmp1 xc y name keyword keynr keyvec keyval (Some False) of
                        Fault \<Rightarrow> Fault
                      | Ret (cmp, userorder) \<Rightarrow>
                          if userorder = Some True \<and> cmp \<noteq> 0 then
                            xml_search_userorder x0 name yangi mid keyword keynr keyvec keyval
                          else if cmp = 0 then Ret (Some (nat mid))
                          else if cmp < 0 then
                            xml_search1 x0 name yangi keyword keynr keyvec keyval low (mid - 1)
                          else
                            xml_search1 x0 name yangi keyword keynr keyvec keyval (mid + 1) upper)
                   else if yangi - yang_order y < 0 then
                     xml_search1 x0 name yangi keyword keynr keyvec keyval low (mid - 1)
                   else
                     xml_search1 x0 name yangi keyword keynr keyvec keyval (mid + 1) upper))"
  by pat_completeness auto
termination
proof (relation "measure (\<lambda>(x0, name, yangi, keyword, keynr, keyvec, keyval, low, upper).
                            nat (upper - low + 1))")
  show "wf (measure (\<lambda>(x0 :: cxobj, name :: string, yangi :: int, keyword :: rfc_6020,
                        keynr :: int, keyvec :: string list, keyval :: string list,
                        low :: int, upper :: int). nat (upper - low + 1)))"
    by simp
qed (use c_div_2_bounds in \<open>auto simp: not_less\<close>)

declare xml_search1.simps [simp del]

definition xml_search ::
  "cxobj \<Rightarrow> string \<Rightarrow> int \<Rightarrow> rfc_6020 \<Rightarrow> int \<Rightarrow> string list \<Rightarrow> string list \<Rightarrow> nat option outcome" where
  "xml_search x0 name yangi keyword keynr keyvec keyval =
     xml_search1 x0 name yangi keyword keynr keyvec keyval 0 (xml_child_nr x0)"

section \<open>Insert position: \<open>xml_insert_pos\<close>\<close>




section \<open>Linear matcher: \<open>xml_match\<close>\<close>

text \<open>
  The inner loop of the list case: \<open>equal\<close> is the variable of the source, set to \<open>0\<close>
  at the start of each round and to \<open>1\<close> at its end.
\<close>

fun xml_match_keys :: "cxobj \<Rightarrow> nat \<Rightarrow> string list \<Rightarrow> string list \<Rightarrow> int \<Rightarrow> int outcome" where
  "xml_match_keys x 0 keyvec keyval equal = Ret equal"
| "xml_match_keys x (Suc n) (keyname # keyvec) (key # keyval) equal =
     (case xml_find_body x keyname of
        None \<Rightarrow> Ret 0
      | Some b0 \<Rightarrow>
          (if strcmp b0 key \<noteq> 0 then Ret 0
           else xml_match_keys x n keyvec keyval 1))"
| "xml_match_keys x (Suc n) keyvec keyval equal = Fault"

text \<open>The outer loop over the element children: \<open>i\<close> is the index of the head of \<open>xs\<close>.\<close>

fun xml_match_list ::
  "cxobj list \<Rightarrow> nat \<Rightarrow> string \<Rightarrow> int \<Rightarrow> string list \<Rightarrow> string list \<Rightarrow> nat option outcome" where
  "xml_match_list [] i name keynr keyvec keyval = Ret None"
| "xml_match_list (x # xs) i name keynr keyvec keyval =
     (if xml_type x \<noteq> CX_ELMNT then xml_match_list xs (Suc i) name keynr keyvec keyval
      else if strcmp (xml_name x) name \<noteq> 0 then
        xml_match_list xs (Suc i) name keynr keyvec keyval
      else
        (case xml_match_keys x (nat keynr) keyvec keyval 0 of
           Fault \<Rightarrow> Fault
         | Ret equal \<Rightarrow>
             if equal \<noteq> 0 then Ret (Some i)
             else xml_match_list xs (Suc i) name keynr keyvec keyval))"

text \<open>
  \<open>clicon_err\<close> stores its message in a global variable and returns; the second
  component of the result is the message stored by the call, if any.
\<close>

definition xml_match ::
  "cxobj \<Rightarrow> string \<Rightarrow> rfc_6020 \<Rightarrow> int \<Rightarrow> string list \<Rightarrow> string list \<Rightarrow>
   (nat option \<times> string option) outcome" where
  "xml_match x0 name keyword keynr keyvec keyval =
     (if keyword = Y_CONTAINER \<or> keyword = Y_LEAF then
        (if keynr \<noteq> 0 then
           Ret (None, Some ''Expected no key argument to CONTAINER or LEAF'')
         else Ret (xml_find x0 name, None))
      else if keyword = Y_LEAF_LIST then
        (if keynr \<noteq> 1 then Ret (None, None)
         else
           (case keyval of
              [] \<Rightarrow> Fault
            | k0 # _ \<Rightarrow> Ret (xml_find_body_obj x0 name k0, None)))
      else if keyword = Y_LIST then
        (case xml_match_list (xml_childvec x0) 0 name keynr keyvec keyval of
           Fault \<Rightarrow> Fault
         | Ret r \<Rightarrow> Ret (r, None))
      else Ret (None, None))"

section \<open>Typed body values and the sibling comparator \<open>xml_cmp\<close>\<close>

text \<open>
  The value kinds of a type name (\<open>yang2cv_type\<close> of clixon_yang_type.c, not part of the
  sources) and the parser and comparison of the CLIgen library are parameters.
  \<open>cv_parse1 body cvtype n\<close> parses \<open>body\<close> as a value of kind \<open>cvtype\<close> (with \<open>n\<close>
  fraction digits): the return value of the C function (\<open>1\<close> parsed, \<open>0\<close> rejected,
  negative on error) and the value.
\<close>

record cv_env =
  yang2cv_type :: "string \<Rightarrow> cv_type"
  cv_parse1 :: "string \<Rightarrow> cv_type \<Rightarrow> nat \<Rightarrow> int \<times> cg_var"
  cv_cmp :: "cg_var \<Rightarrow> cg_var \<Rightarrow> int"

definition xml_cv_set :: "cxobj \<Rightarrow> cg_var \<Rightarrow> cxobj" where
  "xml_cv_set x cv =
     Cxobj (xml_type x) (xml_name x) (xml_prefix x) (xml_value x) (xml_spec x) (Some cv)
       (xml_childvec x)"

definition xml_childvec_set :: "cxobj \<Rightarrow> cxobj list \<Rightarrow> cxobj" where
  "xml_childvec_set x cs =
     Cxobj (xml_type x) (xml_name x) (xml_prefix x) (xml_value x) (xml_spec x) (xml_cv x) cs"

text \<open>
  The result is the return value, the value stored through \<open>cvp\<close> (none on the error
  paths, which leave it unwritten) and the node, which carries the parsed value as its
  cache after a first successful call.
\<close>

definition xml_cv_cache :: "cv_env \<Rightarrow> cxobj \<Rightarrow> string \<Rightarrow> (int \<times> cg_var option \<times> cxobj) outcome" where
  "xml_cv_cache env x body =
     (case xml_cv x of
        Some cv \<Rightarrow> Ret (0, Some cv, x)
      | None \<Rightarrow>
          (case xml_spec x of
             None \<Rightarrow> Ret (- 1, None, x)
           | Some y \<Rightarrow>
               (case yang_type_get y of
                  Type_error \<Rightarrow> Ret (- 1, None, x)
                | Type_resolved None n \<Rightarrow> Fault
                | Type_resolved (Some tname) n \<Rightarrow>
                    let cvtype = yang2cv_type env tname in
                    if cvtype = CGV_ERR then Ret (- 1, None, x)
                    else
                      let (ret, cv) = cv_parse1 env body cvtype
                                        (if cvtype = CGV_DEC64 then n else 0)
                      in
                        if ret < 0 then Ret (- 1, None, x)
                        else if ret = 0 then Ret (- 1, None, x)
                        else Ret (0, Some cv, xml_cv_set x cv))))"

text \<open>
  The loop of \<open>xml_cmp\<close> over the key names of the list statement. \<open>strcmp\<close> on a missing
  body reads through a null pointer.
\<close>

fun xml_cmp_keys :: "cxobj \<Rightarrow> cxobj \<Rightarrow> string list \<Rightarrow> int outcome" where
  "xml_cmp_keys x1 x2 [] = Ret 0"
| "xml_cmp_keys x1 x2 (keyname # cvk) =
     (case (xml_find_body x1 keyname, xml_find_body x2 keyname) of
        (Some b1, Some b2) \<Rightarrow>
          (if strcmp b1 b2 \<noteq> 0 then Ret (strcmp b1 b2) else xml_cmp_keys x1 x2 cvk)
      | _ \<Rightarrow> Fault)"

text \<open>
  The comparator returns its value and the two nodes, whose caches \<open>xml_cv_cache\<close> may
  have filled.
\<close>

definition xml_cmp :: "cv_env \<Rightarrow> cxobj \<Rightarrow> cxobj \<Rightarrow> (int \<times> cxobj \<times> cxobj) outcome" where
  "xml_cmp env x1 x2 =
     (case (xml_spec x1, xml_spec x2) of
        (Some y1, Some y2) \<Rightarrow>
          if y1 \<noteq> y2 \<and> yang_order y1 - yang_order y2 \<noteq> 0 then
            Ret (yang_order y1 - yang_order y2, x1, x2)
          else if \<not> yang_config y1 \<or> ordered_by_user y1 then Ret (0, x1, x2)
          else if ys_keyword y1 = Y_LEAF_LIST then
            (case xml_body x1 of
               None \<Rightarrow> Ret (- 1, x1, x2)
             | Some b1 \<Rightarrow>
                 (case xml_body x2 of
                    None \<Rightarrow> Ret (1, x1, x2)
                  | Some b2 \<Rightarrow>
                      (case xml_cv_cache env x1 b1 of
                         Fault \<Rightarrow> Fault
                       | Ret (r1, cv1, x1') \<Rightarrow>
                           if r1 < 0 then Ret (0, x1', x2)
                           else
                             (case xml_cv_cache env x2 b2 of
                                Fault \<Rightarrow> Fault
                              | Ret (r2, cv2, x2') \<Rightarrow>
                                  if r2 < 0 then Ret (0, x1', x2')
                                  else
                                    (case (cv1, cv2) of
                                       (Some v1, Some v2) \<Rightarrow> Ret (cv_cmp env v1 v2, x1', x2')
                                     | _ \<Rightarrow> Fault)))))
          else if ys_keyword y1 = Y_LIST then
            (case xml_cmp_keys x1 x2 (ys_cvec y1) of
               Fault \<Rightarrow> Fault
             | Ret equal \<Rightarrow> Ret (equal, x1, x2))
          else Ret (0, x1, x2)
      | _ \<Rightarrow> Ret (0, x1, x2))"

section \<open>Sort and verify\<close>

text \<open>
  \<open>qsort\<close> of the C library leaves the order of elements that compare equal open. The
  model is an insertion sort that keeps their order; it hands each compared pair on as
  the comparator left it.
\<close>

fun qsort_insert ::
  "(cxobj \<Rightarrow> cxobj \<Rightarrow> (int \<times> cxobj \<times> cxobj) outcome) \<Rightarrow> cxobj \<Rightarrow> cxobj list \<Rightarrow>
   cxobj list outcome" where
  "qsort_insert cmp x [] = Ret [x]"
| "qsort_insert cmp x (y # ys) =
     (case cmp x y of
        Fault \<Rightarrow> Fault
      | Ret (c, x', y') \<Rightarrow>
          if c \<le> 0 then Ret (x' # y' # ys)
          else (case qsort_insert cmp x' ys of
                  Fault \<Rightarrow> Fault
                | Ret zs \<Rightarrow> Ret (y' # zs)))"

fun qsort ::
  "(cxobj \<Rightarrow> cxobj \<Rightarrow> (int \<times> cxobj \<times> cxobj) outcome) \<Rightarrow> cxobj list \<Rightarrow> cxobj list outcome" where
  "qsort cmp [] = Ret []"
| "qsort cmp (x # xs) =
     (case qsort cmp xs of
        Fault \<Rightarrow> Fault
      | Ret ys \<Rightarrow> qsort_insert cmp x ys)"

text \<open>The result is the return value and the node after the call.\<close>

definition xml_sort :: "cv_env \<Rightarrow> cxobj \<Rightarrow> (int \<times> cxobj) outcome" where
  "xml_sort env x =
     (if (case xml_spec x of Some ys \<Rightarrow> \<not> yang_config ys | None \<Rightarrow> False) then Ret (1, x)
      else
        (case qsort (xml_cmp env) (xml_childvec x) of
           Fault \<Rightarrow> Fault
         | Ret cs \<Rightarrow> Ret (0, xml_childvec_set x cs)))"

fun sort_verify_loop :: "cv_env \<Rightarrow> cxobj \<Rightarrow> cxobj list \<Rightarrow> (int \<times> cxobj list) outcome" where
  "sort_verify_loop env xprev [] = Ret (0, [xprev])"
| "sort_verify_loop env xprev (x # xs) =
     (case xml_cmp env xprev x of
        Fault \<Rightarrow> Fault
      | Ret (c, xprev', x') \<Rightarrow>
          if c > 0 then Ret (- 1, xprev' # x' # xs)
          else (case sort_verify_loop env x' xs of
                  Fault \<Rightarrow> Fault
                | Ret (r, ys) \<Rightarrow> Ret (r, xprev' # ys)))"

definition xml_sort_verify :: "cv_env \<Rightarrow> cxobj \<Rightarrow> (int \<times> cxobj) outcome" where
  "xml_sort_verify env x0 =
     (if (case xml_spec x0 of Some ys \<Rightarrow> \<not> yang_config ys | None \<Rightarrow> False) then Ret (1, x0)
      else
        (case xml_childvec x0 of
           [] \<Rightarrow> Ret (0, x0)
         | x # xs \<Rightarrow>
             (case sort_verify_loop env x xs of
                Fault \<Rightarrow> Fault
              | Ret (r, ys) \<Rightarrow> Ret (r, xml_childvec_set x0 ys))))"

section \<open>Schema resolver: \<open>xml_child_spec\<close>\<close>

text \<open>
  Modelled from the spec: \<open>yang_find_datanode\<close> of clixon_yang.c (not part of the
  sources). Section 4.B: the data-node children of a statement are searched for a
  statement whose argument is the name, passing through \<open>choice\<close> and \<open>case\<close>; the
  glossary gives the keywords of a data node.
\<close>

definition yang_datanode :: "yang_stmt \<Rightarrow> bool" where
  "yang_datanode ys =
     (ys_keyword ys = Y_CONTAINER \<or> ys_keyword ys = Y_LIST \<or> ys_keyword ys = Y_LEAF \<or>
      ys_keyword ys = Y_LEAF_LIST \<or> ys_keyword ys = Y_ANYDATA \<or> ys_keyword ys = Y_ANYXML)"

fun yang_find_datanode_in :: "yang_stmt list \<Rightarrow> string \<Rightarrow> yang_stmt option"
  and yang_find_datanode_choice :: "yang_stmt list \<Rightarrow> string \<Rightarrow> yang_stmt option" where
  "yang_find_datanode_in [] argument = None"
| "yang_find_datanode_in (Yang_stmt kw arg stmts ord cfg cvec ty cvt md # rest) argument =
     (if kw = Y_CHOICE then
        (case yang_find_datanode_choice stmts argument of
           Some ysmatch \<Rightarrow> Some ysmatch
         | None \<Rightarrow> yang_find_datanode_in rest argument)
      else if yang_datanode (Yang_stmt kw arg stmts ord cfg cvec ty cvt md) \<and> argument = arg
      then Some (Yang_stmt kw arg stmts ord cfg cvec ty cvt md)
      else yang_find_datanode_in rest argument)"
| "yang_find_datanode_choice [] argument = None"
| "yang_find_datanode_choice (Yang_stmt kw arg stmts ord cfg cvec ty cvt md # rest) argument =
     (if kw = Y_CASE then
        (case yang_find_datanode_in stmts argument of
           Some ysmatch \<Rightarrow> Some ysmatch
         | None \<Rightarrow> yang_find_datanode_choice rest argument)
      else if yang_datanode (Yang_stmt kw arg stmts ord cfg cvec ty cvt md) \<and> argument = arg
      then Some (Yang_stmt kw arg stmts ord cfg cvec ty cvt md)
      else yang_find_datanode_choice rest argument)"

definition yang_find_datanode :: "yang_stmt \<Rightarrow> string \<Rightarrow> yang_stmt option" where
  "yang_find_datanode yn argument = yang_find_datanode_in (ys_stmt yn) argument"

text \<open>
  The schema forest is the list of its modules. The lookups of the branch for an
  element without a bound parent (\<open>ys_module_by_xml\<close>, \<open>yang_find_schemanode\<close>,
  \<open>xml_yang_find_non_strict\<close>: not part of the sources) and the flag
  \<open>_CLICON_XML_NS_STRICT\<close> are parameters; the two lookups that can fail return their
  return value with the statement found.
\<close>

type_synonym yang_spec = "yang_stmt list"

record resolver_env =
  ys_module_by_xml :: "yang_spec \<Rightarrow> cxobj option \<Rightarrow> int \<times> yang_stmt option"
  yang_find_schemanode :: "yang_stmt \<Rightarrow> string \<Rightarrow> yang_stmt option"
  xml_yang_find_non_strict :: "cxobj \<Rightarrow> yang_spec \<Rightarrow> int \<times> yang_stmt option"
  clicon_xml_ns_strict :: bool

text \<open>
  The statement \<open>y\<close> of the source before its last step: \<open>None\<close> when a lookup failed
  (the function then returns \<open>-1\<close>), otherwise the statement found, if any.
\<close>

definition xml_child_spec_find ::
  "resolver_env \<Rightarrow> cxobj \<Rightarrow> cxobj option \<Rightarrow> yang_spec option \<Rightarrow> yang_stmt option option" where
  "xml_child_spec_find env x xp yspec =
     (case (case xp of None \<Rightarrow> None | Some p \<Rightarrow> xml_spec p) of
        Some yparent \<Rightarrow>
          if ys_keyword yparent = Y_RPC then
            (case yang_find yparent Y_INPUT None of
               Some yi \<Rightarrow> Some (yang_find_datanode yi (xml_name x))
             | None \<Rightarrow> Some None)
          else Some (yang_find_datanode yparent (xml_name x))
      | None \<Rightarrow>
          (case yspec of
             Some ysp \<Rightarrow>
               (case ys_module_by_xml env ysp xp of
                  (r, ymod) \<Rightarrow>
                    if r < 0 then None
                    else
                      let y = (case ymod of
                                 Some m \<Rightarrow> yang_find_schemanode env m (xml_name x)
                               | None \<Rightarrow> None)
                      in
                        if y = None \<and> \<not> clicon_xml_ns_strict env then
                          (case xml_yang_find_non_strict env x ysp of
                             (r2, y2) \<Rightarrow> if r2 < 0 then None else Some y2)
                        else Some y)
           | None \<Rightarrow> Some None))"

text \<open>The last step (\<open>kludge rpc -> input\<close>) and the function: return value and \<open>yresult\<close>.\<close>

definition rpc_input :: "yang_stmt option \<Rightarrow> yang_stmt option" where
  "rpc_input y =
     (case y of
        None \<Rightarrow> None
      | Some ys \<Rightarrow>
          if ys_keyword ys = Y_RPC \<and> yang_find ys Y_INPUT None \<noteq> None
          then yang_find ys Y_INPUT None
          else Some ys)"

definition xml_child_spec ::
  "resolver_env \<Rightarrow> cxobj \<Rightarrow> cxobj option \<Rightarrow> yang_spec option \<Rightarrow> int \<times> yang_stmt option" where
  "xml_child_spec env x xp yspec =
     (case xml_child_spec_find env x xp yspec of
        None \<Rightarrow> (- 1, None)
      | Some y \<Rightarrow> (0, rpc_input y))"

section \<open>JSON encoder\<close>

datatype array_element_type =
  NO_ARRAY | FIRST_ARRAY | MIDDLE_ARRAY | LAST_ARRAY | SINGLE_ARRAY | BODY_ARRAY

text \<open>\<open>NA_CHILD\<close> stands for the two values \<open>-1\<close> and \<open>-2\<close> that \<open>child_type\<close> returns for
  "not applicable"; no switch of the source tells them apart.\<close>

datatype childtype = NULL_CHILD | BODY_CHILD | ANY_CHILD | NA_CHILD

text \<open>
  Modelled from the spec: \<open>xml_child_nr_notype\<close> and \<open>xml_find_type_value\<close> of
  clixon_xml.c (not part of the sources): the number of children that are not of the
  given type, and the value of the first child of the given type and name (and of the
  given prefix, when one is given).
\<close>

definition xml_child_nr_notype :: "cxobj \<Rightarrow> cxobj_type \<Rightarrow> int" where
  "xml_child_nr_notype x ty = int (length (filter (\<lambda>c. xml_type c \<noteq> ty) (xml_childvec x)))"

definition xml_find_type_value :: "cxobj \<Rightarrow> string option \<Rightarrow> string \<Rightarrow> cxobj_type \<Rightarrow> string option" where
  "xml_find_type_value x prefix name ty =
     map_option xml_value
       (find (\<lambda>c. xml_type c = ty \<and>
                   (case prefix of None \<Rightarrow> True | Some p \<Rightarrow> xml_prefix c = Some p) \<and>
                   strcmp name (xml_name c) = 0)
             (xml_childvec x))"

definition child_type :: "cxobj \<Rightarrow> childtype" where
  "child_type x =
     (let clen = xml_child_nr_notype x CX_ATTR in
      if xml_type x \<noteq> CX_ELMNT then NA_CHILD
      else if clen = 0 then NULL_CHILD
      else if clen > 1 then ANY_CHILD
      else
        (case find (\<lambda>xc. xml_type xc \<noteq> CX_ATTR) (xml_childvec x) of
           None \<Rightarrow> NA_CHILD
         | Some xc \<Rightarrow>
             if xml_child_nr_notype xc CX_ATTR = 0 \<and> xml_type xc = CX_BODY then BODY_CHILD
             else ANY_CHILD))"

definition childtype2str :: "childtype \<Rightarrow> string" where
  "childtype2str lt =
     (case lt of NULL_CHILD \<Rightarrow> ''null'' | BODY_CHILD \<Rightarrow> ''body'' | ANY_CHILD \<Rightarrow> ''any''
      | NA_CHILD \<Rightarrow> [])"

definition arraytype2str :: "array_element_type \<Rightarrow> string" where
  "arraytype2str lt =
     (case lt of NO_ARRAY \<Rightarrow> ''no'' | FIRST_ARRAY \<Rightarrow> ''first'' | MIDDLE_ARRAY \<Rightarrow> ''middle''
      | LAST_ARRAY \<Rightarrow> ''last'' | SINGLE_ARRAY \<Rightarrow> ''single'' | BODY_ARRAY \<Rightarrow> ''body'')"

text \<open>Two siblings are in one array when they are elements of one name and carry the same
  \<open>xmlns\<close> attribute, or both none.\<close>

definition array_eval :: "cxobj option \<Rightarrow> cxobj \<Rightarrow> cxobj option \<Rightarrow> array_element_type" where
  "array_eval xprev x xnext =
     (let nsx = xml_find_type_value x None ''xmlns'' CX_ATTR;
          eq = (\<lambda>xo. case xo of
                        None \<Rightarrow> False
                      | Some x2 \<Rightarrow>
                          xml_type x2 = CX_ELMNT \<and> strcmp (xml_name x) (xml_name x2) = 0 \<and>
                          (let ns2 = xml_find_type_value x2 None ''xmlns'' CX_ATTR in
                           (nsx = None \<and> ns2 = None) \<or>
                           (case (nsx, ns2) of
                              (Some a, Some b) \<Rightarrow> strcmp a b = 0
                            | _ \<Rightarrow> False)));
          eqnext = eq xnext;
          eqprev = eq xprev
      in
        if xml_type x \<noteq> CX_ELMNT then BODY_ARRAY
        else if eqprev \<and> eqnext then MIDDLE_ARRAY
        else if eqprev then LAST_ARRAY
        else if eqnext then FIRST_ARRAY
        else if (case xml_spec x of Some ys \<Rightarrow> ys_keyword ys = Y_LIST | None \<Rightarrow> False)
        then SINGLE_ARRAY
        else NO_ARRAY)"

text \<open>
  \<open>json_str_escape_cdata\<close>: the text appended to the buffer for the rest of the string,
  where \<open>esc\<close> says whether the position is inside a CDATA section.
\<close>

function json_str_escape_cdata :: "bool \<Rightarrow> string \<Rightarrow> string" where
  "json_str_escape_cdata esc [] = []"
| "json_str_escape_cdata esc (c # cs) =
     (if c = CHR 0x0A then [CHR 0x5C, CHR ''n''] @ json_str_escape_cdata esc cs
      else if c = CHR 0x22 then [CHR 0x5C, CHR 0x22] @ json_str_escape_cdata esc cs
      else if c = CHR 0x5C then [CHR 0x5C, CHR 0x5C] @ json_str_escape_cdata esc cs
      else if c = CHR ''<'' then
        (if \<not> esc \<and> take 9 (c # cs) = ''<![CDATA['' then json_str_escape_cdata True (drop 8 cs)
         else c # json_str_escape_cdata esc cs)
      else if c = CHR '']'' then
        (if esc \<and> take 3 (c # cs) = '']]>'' then json_str_escape_cdata False (drop 2 cs)
         else c # json_str_escape_cdata esc cs)
      else c # json_str_escape_cdata esc cs)"
  by pat_completeness auto
termination
  by (relation "measure (\<lambda>(esc, s). length s)") auto

text \<open>
  Modelled from the spec: \<open>nodeid_split\<close> (clixon_string.c, not part of the sources):
  \<open>p:n\<close> is split at its first colon into the prefix \<open>p\<close> and the local name \<open>n\<close>; a
  name without a colon has no prefix.
\<close>

definition nodeid_split :: "string \<Rightarrow> string option \<times> string" where
  "nodeid_split nodeid =
     (if CHR '':'' \<in> set nodeid
      then (Some (takeWhile (\<lambda>c. c \<noteq> CHR '':'') nodeid),
            tl (dropWhile (\<lambda>c. c \<noteq> CHR '':'') nodeid))
      else (None, nodeid))"

text \<open>
  Modelled from the spec: the lookups of a module in the schema forest (clixon_yang.c and
  clixon_yang_module.c, not part of the sources), by name, by namespace URI and by
  prefix; the namespace and the prefix of a module are the arguments of its
  \<open>namespace\<close> and \<open>prefix\<close> statements.
\<close>

definition yang_find_mynamespace :: "yang_stmt \<Rightarrow> string option" where
  "yang_find_mynamespace ymod = map_option ys_argument (yang_find ymod Y_NAMESPACE None)"

definition yang_find_myprefix :: "yang_stmt \<Rightarrow> string option" where
  "yang_find_myprefix ymod = map_option ys_argument (yang_find ymod Y_PREFIX None)"

definition yang_find_module_by_name :: "yang_spec \<Rightarrow> string \<Rightarrow> yang_stmt option" where
  "yang_find_module_by_name yspec name =
     find (\<lambda>m. ys_keyword m = Y_MODULE \<and> ys_argument m = name) yspec"

definition yang_find_module_by_namespace :: "yang_spec \<Rightarrow> string \<Rightarrow> yang_stmt option" where
  "yang_find_module_by_namespace yspec ns =
     find (\<lambda>m. ys_keyword m = Y_MODULE \<and> yang_find_mynamespace m = Some ns) yspec"

definition yang_find_module_by_prefix_yspec :: "yang_spec \<Rightarrow> string \<Rightarrow> yang_stmt option" where
  "yang_find_module_by_prefix_yspec yspec prefix =
     find (\<lambda>m. ys_keyword m = Y_MODULE \<and> yang_find_myprefix m = Some prefix) yspec"

text \<open>
  Modelled from the spec: \<open>xml2ns\<close> (section 4.H, primitive (a); clixon_xml_nsctx.c is not
  part of the sources): the namespace URI of a prefix at a node, read from the
  \<open>xmlns:pfx\<close> attributes (the \<open>xmlns\<close> attribute when the prefix is absent) of the node
  and then of its ancestors. A node is given with the list of its ancestors, the parent
  first: the parent link of the source.
\<close>

fun xml2ns :: "cxobj list \<Rightarrow> string option \<Rightarrow> string option" where
  "xml2ns [] prefix = None"
| "xml2ns (x # anc) prefix =
     (case (case prefix of
              Some p \<Rightarrow> xml_find_type_value x (Some ''xmlns'') p CX_ATTR
            | None \<Rightarrow> xml_find_type_value x None ''xmlns'' CX_ATTR) of
        Some ns \<Rightarrow> Some ns
      | None \<Rightarrow> xml2ns anc prefix)"

text \<open>
  The environment of the codec: the schema forest (\<open>ys_spec\<close> of any statement),
  whether the source is compiled with \<open>IDENTITYREF_KLUDGE\<close>, and the functions of the
  decoder that are not part of the sources (described where they are used).
\<close>

text \<open>
  Modelled from the spec: the error reports of clixon_netconf_lib.c (not part of the
  sources), section 6: \<open>netconf_unknown_namespace_xml\<close> with its error type, the
  namespace (or the name that has none) and the message, and
  \<open>netconf_malformed_message_xml\<close> with its message. The caller of the decoder passes
  a place for the report (\<open>xerr\<close> is not null).
\<close>

datatype netconf_error =
    Unknown_namespace string string string
  | Malformed_message string

record json_env =
  je_yspec :: yang_spec
  je_identityref_kludge :: bool
  je_prefix_by_namespace :: "yang_stmt \<Rightarrow> string \<Rightarrow> string option"
  je_parse :: "string \<Rightarrow> cxobj list option"
  je_populate0_parent :: "cxobj \<Rightarrow> cxobj \<Rightarrow> int \<times> cxobj \<times> netconf_error option"
  je_populate0 :: "cxobj \<Rightarrow> yang_spec option \<Rightarrow> int \<times> cxobj \<times> netconf_error option"
  je_apply0_sort :: "cxobj \<Rightarrow> int \<times> cxobj"

text \<open>The text that \<open>xml2json_encode_identityref\<close> appends for the body \<open>body\<close> of the
  body node \<open>xb\<close> under a parent bound to \<open>yp\<close>.\<close>

definition xml2json_encode_identityref ::
  "json_env \<Rightarrow> cxobj list \<Rightarrow> cxobj \<Rightarrow> string \<Rightarrow> yang_stmt \<Rightarrow> string" where
  "xml2json_encode_identityref env anc xb body yp =
     (case nodeid_split body of
        (prefix, ident) \<Rightarrow>
          (case xml2ns (xb # anc) prefix of
             None \<Rightarrow>
               if je_identityref_kludge env then
                 (case (case prefix of
                          None \<Rightarrow> None
                        | Some p \<Rightarrow> yang_find_module_by_prefix_yspec (je_yspec env) p) of
                    Some ymod \<Rightarrow> ys_argument ymod @ '':'' @ ident
                  | None \<Rightarrow> ident)
               else ident
           | Some ns \<Rightarrow>
               (case yang_find_module_by_namespace (je_yspec env) ns of
                  Some ymod \<Rightarrow>
                    if ys_argument ymod = ys_modname yp then ident
                    else ys_argument ymod @ '':'' @ ident
                | None \<Rightarrow> ident)))"

text \<open>
  \<open>xml2json_encode\<close>: return value and buffer. The parent of the body node is the head
  of \<open>anc\<close>.
\<close>

definition xml2json_encode :: "json_env \<Rightarrow> cxobj list \<Rightarrow> cxobj \<Rightarrow> string \<Rightarrow> int \<times> string" where
  "xml2json_encode env anc xb cb0 =
     (let body = xml_value xb;
          quoted = (\<lambda>cb. (0, cb0 @ [CHR 0x22] @ json_str_escape_cdata False cb @ [CHR 0x22]));
          plain = (\<lambda>cb. (0 :: int, cb0 @ cb))
      in
        case (case anc of [] \<Rightarrow> None | xp # _ \<Rightarrow> xml_spec xp) of
          None \<Rightarrow> quoted body
        | Some yp \<Rightarrow>
            if ys_keyword yp = Y_LEAF \<or> ys_keyword yp = Y_LEAF_LIST then
              (case yang_type_get yp of
                 Type_error \<Rightarrow> (- 1, cb0)
               | Type_resolved rtype n \<Rightarrow>
                   if yang_type2cv yp = CGV_STRING then
                     (if rtype = Some ''identityref''
                      then quoted (xml2json_encode_identityref env anc xb body yp)
                      else quoted body)
                   else if yang_type2cv yp \<in> {CGV_INT8, CGV_INT16, CGV_INT32, CGV_INT64,
                             CGV_UINT8, CGV_UINT16, CGV_UINT32, CGV_UINT64, CGV_DEC64, CGV_BOOL}
                   then plain body
                   else quoted body)
            else quoted body)"

text \<open>The pieces of the output: indentation (\<open>JSON_INDENT\<close> is 2), line break, blank, and
  the member name with the module name in front when there is one.\<close>

definition json_indent :: "int \<Rightarrow> int \<Rightarrow> string" where
  "json_indent pretty level = (if pretty \<noteq> 0 then replicate (nat \<bar>level * 2\<bar>) (CHR '' '') else [])"

definition json_nl :: "int \<Rightarrow> string" where
  "json_nl pretty = (if pretty \<noteq> 0 then [CHR 0x0A] else [])"

definition json_sp :: "int \<Rightarrow> string" where
  "json_sp pretty = (if pretty \<noteq> 0 then '' '' else [])"

definition json_member :: "int \<Rightarrow> int \<Rightarrow> string option \<Rightarrow> string \<Rightarrow> string" where
  "json_member pretty level modname name =
     json_indent pretty level @ [CHR 0x22] @
     (case modname of Some m \<Rightarrow> m @ '':'' | None \<Rightarrow> []) @
     name @ [CHR 0x22] @ '':'' @ json_sp pretty"

text \<open>The module name to print for \<open>x\<close> and the ancestor module name handed to its
  children.\<close>

definition json_modname :: "cxobj \<Rightarrow> string option \<Rightarrow> string option \<times> string option" where
  "json_modname x modname0 =
     (case xml_spec x of
        None \<Rightarrow> (None, modname0)
      | Some ys \<Rightarrow>
          if modname0 = Some (ys_modname ys) then (None, modname0)
          else (Some (ys_modname ys), Some (ys_modname ys)))"

text \<open>The text of the first switch on \<open>arraytype\<close>, for every array type but \<open>BODY_ARRAY\<close>,
  and the value of \<open>level\<close> after it.\<close>

definition json_open :: "cxobj \<Rightarrow> array_element_type \<Rightarrow> int \<Rightarrow> int \<Rightarrow> bool \<Rightarrow> string option \<Rightarrow> string \<times> int" where
  "json_open x arraytype level pretty flat modname =
     (let childt = child_type x;
          ys = xml_spec x;
          brace = (case childt of
                     NULL_CHILD \<Rightarrow> ''null''
                   | ANY_CHILD \<Rightarrow> ''{'' @ json_nl pretty
                   | _ \<Rightarrow> [])
      in
        case arraytype of
          NO_ARRAY \<Rightarrow>
            ((if \<not> flat then json_member pretty level modname (xml_name x) else []) @
             (case childt of
                NULL_CHILD \<Rightarrow>
                  (if (case ys of Some y \<Rightarrow> ys_keyword y = Y_CONTAINER | None \<Rightarrow> False)
                   then ''{}''
                   else if (case ys of
                              Some y \<Rightarrow> ys_keyword y = Y_LEAF \<or> ys_keyword y = Y_LEAF_LIST
                            | None \<Rightarrow> False)
                   then ''[null]''
                   else ''null'')
              | ANY_CHILD \<Rightarrow> ''{'' @ json_nl pretty
              | _ \<Rightarrow> []),
             level)
        | FIRST_ARRAY \<Rightarrow>
            (json_member pretty level modname (xml_name x) @
             ''['' @ json_nl pretty @ json_indent pretty (level + 1) @ brace,
             level + 1)
        | SINGLE_ARRAY \<Rightarrow>
            (json_member pretty level modname (xml_name x) @
             ''['' @ json_nl pretty @ json_indent pretty (level + 1) @ brace,
             level + 1)
        | MIDDLE_ARRAY \<Rightarrow> (json_indent pretty (level + 1) @ brace, level + 1)
        | LAST_ARRAY \<Rightarrow> (json_indent pretty (level + 1) @ brace, level + 1)
        | BODY_ARRAY \<Rightarrow> ([], level))"

text \<open>The text of the last switch on \<open>arraytype\<close>; \<open>level\<close> is the value after the first
  switch.\<close>

definition json_close :: "cxobj \<Rightarrow> array_element_type \<Rightarrow> int \<Rightarrow> int \<Rightarrow> string" where
  "json_close x arraytype level pretty =
     (let childt = child_type x;
          brace = json_nl pretty @ json_indent pretty level @ ''}''
      in
        case arraytype of
          BODY_ARRAY \<Rightarrow> []
        | NO_ARRAY \<Rightarrow> (if childt = ANY_CHILD then brace else [])
        | FIRST_ARRAY \<Rightarrow> (if childt = ANY_CHILD then brace else [])
        | MIDDLE_ARRAY \<Rightarrow> (if childt = ANY_CHILD then brace else [])
        | SINGLE_ARRAY \<Rightarrow>
            (if childt = NULL_CHILD \<or> childt = BODY_CHILD then
               json_nl pretty @ json_indent pretty level @ '']''
             else if childt = ANY_CHILD then
               brace @ json_nl pretty @ json_indent pretty (level - 1) @ '']''
             else json_indent pretty level @ '']'')
        | LAST_ARRAY \<Rightarrow>
            (if childt = NULL_CHILD \<or> childt = BODY_CHILD then
               json_nl pretty @ json_indent pretty level @ '']''
             else if childt = ANY_CHILD then
               brace @ json_nl pretty @ json_indent pretty (level - 1) @ '']''
             else json_indent pretty level @ '']''))"

text \<open>
  \<open>xml2json1_cbuf\<close>: return value and buffer. \<open>anc\<close> are the ancestors of \<open>x\<close>, the parent
  first. \<open>xml2json1_children\<close> is the loop over the children: \<open>xprev\<close> is the child
  before the head of the list (of any type), \<open>x # anc\<close> of the caller is its \<open>anc\<close>.
\<close>

fun xml2json1_cbuf ::
  "json_env \<Rightarrow> cxobj list \<Rightarrow> string \<Rightarrow> cxobj \<Rightarrow> array_element_type \<Rightarrow> int \<Rightarrow> int \<Rightarrow> bool \<Rightarrow>
   string option \<Rightarrow> int \<times> string"
  and xml2json1_children ::
  "json_env \<Rightarrow> cxobj list \<Rightarrow> string \<Rightarrow> cxobj option \<Rightarrow> cxobj list \<Rightarrow> int \<Rightarrow> int \<Rightarrow> int \<Rightarrow>
   string option \<Rightarrow> int \<times> string" where
  "xml2json1_cbuf env anc cb (Cxobj ty name pfx val spec cv cs) arraytype level pretty flat modname0 =
     (let x = Cxobj ty name pfx val spec cv cs;
          (modname, modname1) = json_modname x modname0;
          cb1 = cb @ (if pretty = 2
                      then ''#'' @ arraytype2str arraytype @ ''_array, '' @
                           childtype2str (child_type x) @ ''_child ''
                      else []);
          (ret, cb2, level1) =
            (if arraytype = BODY_ARRAY then
               (case xml2json_encode env anc x cb1 of (r, c) \<Rightarrow> (r, c, level))
             else
               (case json_open x arraytype level pretty flat modname of
                  (s, l) \<Rightarrow> (0, cb1 @ s, l)))
      in
        if ret < 0 then (- 1, cb2)
        else
          (case xml2json1_children env (x # anc) cb2 None cs
                  (xml_child_nr_notype x CX_ATTR - 1) (level1 + 1) pretty modname1 of
             (r, cb3) \<Rightarrow>
               if r < 0 then (- 1, cb3)
               else (0, cb3 @ json_close x arraytype level1 pretty)))"
| "xml2json1_children env anc cb xprev [] commas level pretty modname0 = (0, cb)"
| "xml2json1_children env anc cb xprev (xc # rest) commas level pretty modname0 =
     (if xml_type xc = CX_ATTR then
        xml2json1_children env anc cb (Some xc) rest commas level pretty modname0
      else
        (case xml2json1_cbuf env anc cb xc
                (array_eval xprev xc (case rest of [] \<Rightarrow> None | xn # _ \<Rightarrow> Some xn))
                level pretty False modname0 of
           (r, cb1) \<Rightarrow>
             if r < 0 then (- 1, cb1)
             else if commas > 0 then
               xml2json1_children env anc (cb1 @ '','' @ json_nl pretty) (Some xc) rest
                 (commas - 1) level pretty modname0
             else
               xml2json1_children env anc cb1 (Some xc) rest commas level pretty modname0))"

text \<open>\<open>xml2json_cbuf\<close>: its return value is \<open>1\<close>, not \<open>-1\<close>, when the translation fails.\<close>

definition xml2json_cbuf :: "json_env \<Rightarrow> cxobj list \<Rightarrow> string \<Rightarrow> cxobj \<Rightarrow> int \<Rightarrow> int \<times> string" where
  "xml2json_cbuf env anc cb x pretty =
     (case xml2json1_cbuf env anc (cb @ json_indent pretty 0 @ ''{'' @ json_nl pretty)
             x NO_ARRAY 1 pretty False None of
        (r, cb1) \<Rightarrow>
          if r < 0 then (1, cb1)
          else (0, cb1 @ json_nl pretty @ json_indent pretty 0 @ ''}'' @ json_nl pretty))"

section \<open>JSON decoder\<close>

text \<open>
  Modelled from the spec: \<open>xml_namespace_change\<close> (clixon_xml_nsctx.c, not part of the
  sources) with a null prefix. Section 4.G, decoding step 3, and section 4.H (b): the
  prefix of the element is cleared and the element carries the URI as its default
  namespace: an existing \<open>xmlns\<close> attribute is rewritten, otherwise one is added.
\<close>

definition xml_default_ns_set :: "cxobj list \<Rightarrow> string \<Rightarrow> cxobj list" where
  "xml_default_ns_set cs ns =
     (if \<exists>c\<in>set cs. xml_type c = CX_ATTR \<and> xml_name c = ''xmlns''
      then map (\<lambda>c. if xml_type c = CX_ATTR \<and> xml_name c = ''xmlns''
                      then Cxobj CX_ATTR ''xmlns'' (xml_prefix c) ns (xml_spec c) (xml_cv c)
                             (xml_childvec c)
                      else c) cs
      else cs @ [Cxobj CX_ATTR ''xmlns'' None ns None None []])"

definition xml_namespace_change :: "cxobj \<Rightarrow> string \<Rightarrow> cxobj" where
  "xml_namespace_change x ns =
     Cxobj (xml_type x) (xml_name x) None (xml_value x) (xml_spec x) (xml_cv x)
       (xml_default_ns_set (xml_childvec x) ns)"

text \<open>
  \<open>json_xmlns_translate\<close>: return value, the element after the call, and the error
  report. The loop over the element children is \<open>json_xmlns_translate_children\<close>; the
  model runs it before it sets the namespace of the element itself (the source sets
  the namespace first): the loop passes over the attributes, and setting the namespace
  touches the prefix and the attributes only. A module that is looked up in a null
  schema forest, or that has no namespace statement, is a read through a null pointer.
\<close>

fun json_xmlns_translate ::
  "yang_spec option \<Rightarrow> cxobj \<Rightarrow> (int \<times> cxobj \<times> netconf_error option) outcome"
  and json_xmlns_translate_children ::
  "yang_spec option \<Rightarrow> cxobj list \<Rightarrow> (int \<times> cxobj list \<times> netconf_error option) outcome" where
  "json_xmlns_translate yspec (Cxobj ty name pfx val spec cv cs) =
     (case pfx of
        None \<Rightarrow>
          (case json_xmlns_translate_children yspec cs of
             Fault \<Rightarrow> Fault
           | Ret (r, cs', e) \<Rightarrow> Ret (r, Cxobj ty name pfx val spec cv cs', e))
      | Some modname \<Rightarrow>
          (case yspec of
             None \<Rightarrow> Fault
           | Some ysp \<Rightarrow>
               (case yang_find_module_by_name ysp modname of
                  None \<Rightarrow>
                    Ret (0, Cxobj ty name pfx val spec cv cs,
                         Some (Unknown_namespace ''application'' modname
                                 ''No yang module found corresponding to prefix''))
                | Some ymod \<Rightarrow>
                    (case yang_find_mynamespace ymod of
                       None \<Rightarrow> Fault
                     | Some ns \<Rightarrow>
                         (case json_xmlns_translate_children yspec cs of
                            Fault \<Rightarrow> Fault
                          | Ret (r, cs', e) \<Rightarrow>
                              Ret (r, xml_namespace_change (Cxobj ty name pfx val spec cv cs') ns,
                                   e))))))"
| "json_xmlns_translate_children yspec [] = Ret (1, [], None)"
| "json_xmlns_translate_children yspec (xc # rest) =
     (if xml_type xc \<noteq> CX_ELMNT then
        (case json_xmlns_translate_children yspec rest of
           Fault \<Rightarrow> Fault
         | Ret (r, rest', e) \<Rightarrow> Ret (r, xc # rest', e))
      else
        (case json_xmlns_translate yspec xc of
           Fault \<Rightarrow> Fault
         | Ret (r, xc', e) \<Rightarrow>
             if r < 0 then Ret (- 1, xc' # rest, e)
             else if r = 0 then Ret (0, xc' # rest, e)
             else
               (case json_xmlns_translate_children yspec rest of
                  Fault \<Rightarrow> Fault
                | Ret (r', rest', e') \<Rightarrow> Ret (r', xc' # rest', e'))))"


text \<open>
  Modelled from the spec: the namespace context of a node (\<open>xml_nsctx_node\<close>,
  \<open>xml_nsctx_get_prefix\<close> of clixon_xml_nsctx.c, not part of the sources; section 4.H):
  the bindings of prefixes (none for the default namespace) to URIs that the \<open>xmlns\<close>
  attributes of the node and of its ancestors declare, the nearest first; and the
  prefix of the first binding of a URI, if there is one.
\<close>

definition xml_nsctx_own :: "cxobj \<Rightarrow> (string option \<times> string) list" where
  "xml_nsctx_own x =
     map (\<lambda>c. (if xml_prefix c = Some ''xmlns'' then Some (xml_name c) else None, xml_value c))
       (filter (\<lambda>c. xml_type c = CX_ATTR \<and>
                     (xml_prefix c = Some ''xmlns'' \<or>
                      (xml_prefix c = None \<and> xml_name c = ''xmlns'')))
          (xml_childvec x))"

definition xml_nsctx_node :: "cxobj list \<Rightarrow> (string option \<times> string) list" where
  "xml_nsctx_node xs = concat (map xml_nsctx_own xs)"

definition xml_nsctx_get_prefix :: "(string option \<times> string) list \<Rightarrow> string \<Rightarrow> string option option" where
  "xml_nsctx_get_prefix nsc ns = map_option fst (find (\<lambda>b. snd b = ns) nsc)"

text \<open>
  Modelled from the spec: \<open>xml_value_set\<close> on the first body child of a node, and
  \<open>xml_new\<close> followed by the setters that make the new child the attribute
  \<open>xmlns:prefix="ns"\<close> (clixon_xml.c, not part of the sources).
\<close>

fun xml_body_value_set :: "cxobj list \<Rightarrow> string \<Rightarrow> cxobj list" where
  "xml_body_value_set [] v = []"
| "xml_body_value_set (c # cs) v =
     (if xml_type c = CX_BODY
      then Cxobj CX_BODY (xml_name c) (xml_prefix c) v (xml_spec c) (xml_cv c) (xml_childvec c) # cs
      else c # xml_body_value_set cs v)"

definition xml_identityref_set :: "cxobj \<Rightarrow> (string \<times> string) option \<Rightarrow> string \<Rightarrow> cxobj" where
  "xml_identityref_set x decl v =
     Cxobj (xml_type x) (xml_name x) (xml_prefix x) (xml_value x) (xml_spec x) (xml_cv x)
       (xml_body_value_set (xml_childvec x) v @
        (case decl of
           None \<Rightarrow> []
         | Some (p, ns) \<Rightarrow> [Cxobj CX_ATTR p (Some ''xmlns'') ns None None []]))"

text \<open>
  \<open>json2xml_decode_identityref\<close>: return value, the node after the call and the error
  report. \<open>je_prefix_by_namespace\<close> is \<open>yang_find_prefix_by_namespace\<close> (not part of the
  sources): the prefix under which the module of a statement imports a namespace, if
  it does.
\<close>

definition json2xml_decode_identityref ::
  "json_env \<Rightarrow> cxobj list \<Rightarrow> cxobj \<Rightarrow> yang_stmt \<Rightarrow> (int \<times> cxobj \<times> netconf_error option) outcome" where
  "json2xml_decode_identityref env anc x y =
     (case find (\<lambda>c. xml_type c = CX_BODY) (xml_childvec x) of
        None \<Rightarrow> Ret (1, x, None)
      | Some xb \<Rightarrow>
          (case nodeid_split (xml_value xb) of
             (None, ident) \<Rightarrow> Ret (1, x, None)
           | (Some prefix, ident) \<Rightarrow>
               (case yang_find_module_by_name (je_yspec env) prefix of
                  None \<Rightarrow>
                    Ret (0, x, Some (Unknown_namespace ''application'' prefix
                                       ''No module corresponding to prefix''))
                | Some ymod \<Rightarrow>
                    (case yang_find_mynamespace ymod of
                       None \<Rightarrow> Fault
                     | Some ns \<Rightarrow>
                         (case xml_nsctx_get_prefix (xml_nsctx_node (x # anc)) ns of
                            Some (Some prefix2) \<Rightarrow>
                              Ret (1, xml_identityref_set x None (prefix2 @ '':'' @ ident), None)
                          | Some None \<Rightarrow> Ret (1, xml_identityref_set x None ident, None)
                          | None \<Rightarrow>
                              (case je_prefix_by_namespace env y ns of
                                 Some prefix2 \<Rightarrow>
                                   Ret (1, xml_identityref_set x (Some (prefix2, ns))
                                             (prefix2 @ '':'' @ ident), None)
                               | None \<Rightarrow>
                                   if \<not> je_identityref_kludge env then
                                     Ret (0, x, Some (Unknown_namespace ''application'' ns
                                            ''No local prefix corresponding to namespace''))
                                   else
                                     (case yang_find_myprefix ymod of
                                        None \<Rightarrow> Fault
                                      | Some prefix2 \<Rightarrow>
                                          Ret (1, xml_identityref_set x (Some (prefix2, ns))
                                                    (prefix2 @ '':'' @ ident), None))))))))"

text \<open>The step of \<open>json2xml_decode\<close> on the node itself, before the loop over its children.\<close>

definition json2xml_decode_node ::
  "json_env \<Rightarrow> cxobj list \<Rightarrow> cxobj \<Rightarrow> (int \<times> cxobj \<times> netconf_error option) outcome" where
  "json2xml_decode_node env anc x =
     (case xml_spec x of
        None \<Rightarrow> Ret (1, x, None)
      | Some y \<Rightarrow>
          if ys_keyword y = Y_LEAF \<or> ys_keyword y = Y_LEAF_LIST then
            (case yang_type_get y of
               Type_error \<Rightarrow> Ret (- 1, x, None)
             | Type_resolved rtype n \<Rightarrow>
                 if rtype = Some ''identityref'' then json2xml_decode_identityref env anc x y
                 else Ret (1, x, None))
          else Ret (1, x, None))"

text \<open>The number of nodes of a tree that are not attributes: the step on a node does not
  change it.\<close>

fun node_count :: "cxobj \<Rightarrow> nat" where
  "node_count (Cxobj ty name pfx val spec cv cs) =
     (if ty = CX_ATTR then 0 else 1 + sum_list (map node_count cs))"

lemma node_count_body_value_set:
  "sum_list (map node_count (xml_body_value_set cs v)) = sum_list (map node_count cs)"
proof (induction cs)
  case Nil
  then show ?case by simp
next
  case (Cons c cs)
  then show ?case by (cases c) simp
qed

lemma node_count_identityref_set:
  "sum_list (map node_count (xml_childvec (xml_identityref_set x decl v))) =
   sum_list (map node_count (xml_childvec x))"
  by (auto simp: xml_identityref_set_def node_count_body_value_set split: option.splits)

lemma json2xml_decode_node_count:
  "json2xml_decode_node env anc x = Ret (r, x1, e) \<Longrightarrow>
   sum_list (map node_count (xml_childvec x1)) = sum_list (map node_count (xml_childvec x))"
  by (auto simp: json2xml_decode_node_def json2xml_decode_identityref_def
        node_count_identityref_set
      split: option.splits if_splits type_resolution.splits prod.splits)

lemma node_count_elmnt:
  "xml_type x = CX_ELMNT \<Longrightarrow> node_count x = 1 + sum_list (map node_count (xml_childvec x))"
  by (cases x) simp

text \<open>
  \<open>json2xml_decode\<close> and its loop over the element children. \<open>anc\<close> are the ancestors of
  the node (of the children, in the loop), the parent first.
\<close>

function json2xml_decode ::
  "json_env \<Rightarrow> cxobj list \<Rightarrow> cxobj \<Rightarrow> (int \<times> cxobj \<times> netconf_error option) outcome"
  and json2xml_decode_children ::
  "json_env \<Rightarrow> cxobj list \<Rightarrow> cxobj list \<Rightarrow> (int \<times> cxobj list \<times> netconf_error option) outcome" where
  "json2xml_decode env anc x =
     (case json2xml_decode_node env anc x of
        Fault \<Rightarrow> Fault
      | Ret (r, x1, e) \<Rightarrow>
          if r < 0 then Ret (- 1, x1, e)
          else if r = 0 then Ret (0, x1, e)
          else
            (case json2xml_decode_children env (x1 # anc) (xml_childvec x1) of
               Fault \<Rightarrow> Fault
             | Ret (r', cs', e') \<Rightarrow> Ret (r', xml_childvec_set x1 cs', e')))"
| "json2xml_decode_children env anc [] = Ret (1, [], None)"
| "json2xml_decode_children env anc (xc # rest) =
     (if xml_type xc \<noteq> CX_ELMNT then
        (case json2xml_decode_children env anc rest of
           Fault \<Rightarrow> Fault
         | Ret (r, rest', e) \<Rightarrow> Ret (r, xc # rest', e))
      else
        (case json2xml_decode env anc xc of
           Fault \<Rightarrow> Fault
         | Ret (r, xc', e) \<Rightarrow>
             if r < 0 then Ret (- 1, xc' # rest, e)
             else if r = 0 then Ret (0, xc' # rest, e)
             else
               (case json2xml_decode_children env anc rest of
                  Fault \<Rightarrow> Fault
                | Ret (r', rest', e') \<Rightarrow> Ret (r', xc' # rest', e'))))"
  by pat_completeness auto
termination
proof (relation "measures
    [\<lambda>a. case a of
            Inl (env, anc, x) \<Rightarrow> 1 + sum_list (map node_count (xml_childvec x))
          | Inr (env, anc, cs) \<Rightarrow> sum_list (map node_count cs),
     \<lambda>a. case a of
            Inl (env, anc, x) \<Rightarrow> 0
          | Inr (env, anc, cs) \<Rightarrow> 1 + length cs]")
  fix env :: json_env and anc x x2 xa y xb ya
  assume "json2xml_decode_node env anc x = Ret x2" "(xa, y) = x2" "(xb, ya) = y"
  then show "(Inr (env, xb # anc, xml_childvec xb), Inl (env, anc, x))
       \<in> measures
    [\<lambda>a. case a of
            Inl (env, anc, x) \<Rightarrow> 1 + sum_list (map node_count (xml_childvec x))
          | Inr (env, anc, cs) \<Rightarrow> sum_list (map node_count cs),
     \<lambda>a. case a of
            Inl (env, anc, x) \<Rightarrow> 0
          | Inr (env, anc, cs) \<Rightarrow> 1 + length cs]"
    using json2xml_decode_node_count[of env anc x xa xb ya] by auto
qed (auto simp: node_count_elmnt)

declare json2xml_decode.simps [simp del]

datatype yang_bind = YB_NONE | YB_PARENT | YB_TOP | YB_RPC | YB_UNKNOWN

text \<open>
  The switch on \<open>yb\<close> in the loop of \<open>_json_parse\<close>. \<open>ret\<close> is the variable of the source
  on entry (the return value of \<open>json_xmlns_translate\<close>). The result is the return value
  of the binding call (\<open>0\<close> when there is none), the element, whether \<open>failed\<close> is
  incremented, and the error report of the call. In the case \<open>YB_TOP\<close> the source
  tests \<open>ret\<close> without assigning the result of \<open>xml_spec_populate0\<close> to it.
\<close>

definition json_parse_bind ::
  "json_env \<Rightarrow> yang_bind \<Rightarrow> yang_spec option \<Rightarrow> cxobj \<Rightarrow> cxobj \<Rightarrow> int \<Rightarrow>
   int \<times> cxobj \<times> bool \<times> netconf_error option" where
  "json_parse_bind env yb yspec xt x ret =
     (case yb of
        YB_PARENT \<Rightarrow>
          (case je_populate0_parent env xt x of
             (r, x', e) \<Rightarrow> (r, x', r = 0, e))
      | YB_TOP \<Rightarrow>
          (case je_populate0 env x yspec of
             (r, x', e) \<Rightarrow> (r, x', ret = 0, e))
      | _ \<Rightarrow> (0, x, False, None))"

definition json_unqualified_message :: "cxobj \<Rightarrow> string" where
  "json_unqualified_message x =
     ''Top-level JSON object '' @ xml_name x @
     '' is not qualified with namespace which is a MUST according to RFC 7951''"

text \<open>
  The body of the loop of \<open>_json_parse\<close> for one new top-level object \<open>x\<close>. It leaves
  the loop through \<open>done\<close> or \<open>fail\<close> (\<open>Member_leave\<close>: the return value, \<open>x\<close> as it is
  then, the error report written) or goes on to the next object (\<open>Member_next\<close>: \<open>x\<close>
  as it is then, whether \<open>failed\<close> was incremented, the error report written). \<open>anc\<close>
  is the top node \<open>xt\<close> followed by its ancestors.
\<close>

datatype member_result =
    Member_leave int cxobj "netconf_error option"
  | Member_next cxobj bool "netconf_error option"

definition xerr_set :: "netconf_error option \<Rightarrow> netconf_error option \<Rightarrow> netconf_error option" where
  "xerr_set xerr e = (case e of None \<Rightarrow> xerr | Some r \<Rightarrow> Some r)"

definition json_parse_member ::
  "json_env \<Rightarrow> yang_bind \<Rightarrow> yang_spec option \<Rightarrow> cxobj list \<Rightarrow> cxobj \<Rightarrow> member_result outcome" where
  "json_parse_member env yb yspec anc x =
     (if yspec \<noteq> None \<and> xml_prefix x = None then
        Ret (Member_leave 0 x (Some (Malformed_message (json_unqualified_message x))))
      else
        (case json_xmlns_translate yspec x of
           Fault \<Rightarrow> Fault
         | Ret (ret, x1, e1) \<Rightarrow>
             if ret < 0 then Ret (Member_leave (- 1) x1 e1)
             else if ret = 0 then Ret (Member_leave 0 x1 e1)
             else
               (case json_parse_bind env yb yspec (hd anc) x1 ret of
                  (br, x2, inc, e2) \<Rightarrow>
                    if br < 0 then Ret (Member_leave (- 1) x2 (xerr_set e1 e2))
                    else
                      (case json2xml_decode env anc x2 of
                         Fault \<Rightarrow> Fault
                       | Ret (dr, x3, e3) \<Rightarrow>
                           if dr < 0 then Ret (Member_leave (- 1) x3 (xerr_set (xerr_set e1 e2) e3))
                           else if dr = 0 then
                             Ret (Member_leave 0 x3 (xerr_set (xerr_set e1 e2) e3))
                           else Ret (Member_next x3 inc (xerr_set (xerr_set e1 e2) e3))))))"

text \<open>
  The loop over the new top-level objects \<open>jy_xvec\<close>. The result is \<open>-1\<close> or \<open>0\<close> when
  the loop is left and \<open>1\<close> when it runs to its end, with the objects as the loop left
  them, the counter \<open>failed\<close> and the error report.
\<close>

fun json_parse_loop ::
  "json_env \<Rightarrow> yang_bind \<Rightarrow> yang_spec option \<Rightarrow> cxobj list \<Rightarrow> cxobj list \<Rightarrow> nat \<Rightarrow>
   netconf_error option \<Rightarrow> (int \<times> cxobj list \<times> nat \<times> netconf_error option) outcome" where
  "json_parse_loop env yb yspec anc [] failed xerr = Ret (1, [], failed, xerr)"
| "json_parse_loop env yb yspec anc (x # xs) failed xerr =
     (case json_parse_member env yb yspec anc x of
        Fault \<Rightarrow> Fault
      | Ret (Member_leave r x' e) \<Rightarrow> Ret (r, x' # xs, failed, xerr_set xerr e)
      | Ret (Member_next x' inc e) \<Rightarrow>
          (case json_parse_loop env yb yspec anc xs (if inc then Suc failed else failed)
                  (xerr_set xerr e) of
             Fault \<Rightarrow> Fault
           | Ret (r, xs', f, e') \<Rightarrow> Ret (r, x' # xs', f, e')))"

text \<open>
  \<open>_json_parse\<close>: return value, the top node after the call and the error report.
  \<open>je_parse\<close> is the parser generated from the grammar (not part of the sources): the
  new top-level objects that it adds to the children of \<open>xt\<close>, member names split into
  prefix and name, or none when the text is not JSON. \<open>je_apply0_sort\<close> is
  \<open>xml_apply0\<close> with \<open>xml_sort\<close> (\<open>xml_apply0\<close> is not part of the sources). \<open>xt_anc\<close>
  are the ancestors of \<open>xt\<close>.
\<close>

definition json_parse ::
  "json_env \<Rightarrow> string \<Rightarrow> yang_bind \<Rightarrow> yang_spec option \<Rightarrow> cxobj \<Rightarrow> cxobj list \<Rightarrow>
   (int \<times> cxobj \<times> netconf_error option) outcome" where
  "json_parse env str yb yspec xt xt_anc =
     (case je_parse env str of
        None \<Rightarrow> Ret (- 1, xt, None)
      | Some xvec \<Rightarrow>
          (case json_parse_loop env yb yspec
                  (xml_childvec_set xt (xml_childvec xt @ xvec) # xt_anc) xvec 0 None of
             Fault \<Rightarrow> Fault
           | Ret (r, xvec', failed, xerr) \<Rightarrow>
               if r \<le> 0 then Ret (r, xml_childvec_set xt (xml_childvec xt @ xvec'), xerr)
               else
                 (case je_apply0_sort env (xml_childvec_set xt (xml_childvec xt @ xvec')) of
                    (sr, xt') \<Rightarrow>
                      if sr < 0 then Ret (- 1, xt', xerr)
                      else Ret (if failed = 0 then 1 else 0, xt', xerr))))"

text \<open>An object passes the body of the loop when the loop goes on after it.\<close>

definition json_member_passes ::
  "json_env \<Rightarrow> yang_bind \<Rightarrow> yang_spec option \<Rightarrow> cxobj list \<Rightarrow> cxobj \<Rightarrow> bool" where
  "json_member_passes env yb yspec anc x =
     (case json_parse_member env yb yspec anc x of
        Ret (Member_next x' inc e) \<Rightarrow> True
      | _ \<Rightarrow> False)"

section \<open>Well-formed queries\<close>

text \<open>
  The key arrays of a query are as long as the keyword makes the source read them: one
  value for a leaf-list, \<open>keynr\<close> names and values for a list.
\<close>

definition query_wf :: "rfc_6020 \<Rightarrow> int \<Rightarrow> string list \<Rightarrow> string list \<Rightarrow> bool" where
  "query_wf keyword keynr keyvec keyval =
     (if keyword = Y_LEAF_LIST then keyval \<noteq> []
      else if keyword = Y_LIST then nat keynr \<le> length keyvec \<and> nat keynr \<le> length keyval
      else True)"

section \<open>Example trees\<close>

definition ex_elem :: "string \<Rightarrow> yang_stmt option \<Rightarrow> cxobj list \<Rightarrow> cxobj" where
  "ex_elem name spec cs = Cxobj CX_ELMNT name None [] spec None cs"

definition ex_body :: "string \<Rightarrow> cxobj" where
  "ex_body v = Cxobj CX_BODY ''body'' None v None None []"

definition ex_yang_a :: yang_stmt where
  "ex_yang_a = Yang_stmt Y_CONTAINER ''a'' [] 0 True [] Type_error CGV_ERR ''m''"

text \<open>\<open><top><a/><u/></top>\<close>: \<open>a\<close> is bound to the container \<open>a\<close>, \<open>u\<close> is unbound.\<close>

definition ex_parent_unbound_mid :: cxobj where
  "ex_parent_unbound_mid =
     ex_elem ''top'' None [ex_elem ''a'' (Some ex_yang_a) [], ex_elem ''u'' None []]"

text \<open>An example value environment: unsigned decimal numbers and strings.\<close>

fun ex_digits :: "string \<Rightarrow> nat \<Rightarrow> nat option" where
  "ex_digits [] acc = Some acc"
| "ex_digits (c # cs) acc =
     (if 48 \<le> (of_char c :: nat) \<and> (of_char c :: nat) \<le> 57
      then ex_digits cs (10 * acc + (of_char c - 48))
      else None)"

definition ex_cv_env :: cv_env where
  "ex_cv_env = \<lparr>
     yang2cv_type = (\<lambda>t. if t = ''uint32'' then CGV_UINT32
                          else if t = ''string'' then CGV_STRING else CGV_ERR),
     cv_parse1 = (\<lambda>body cvtype n.
        if cvtype = CGV_STRING then (1, CV_STRING body)
        else if cvtype = CGV_UINT32 \<and> body \<noteq> [] then
          (case ex_digits body 0 of
             Some k \<Rightarrow> (1, CV_INT (int k))
           | None \<Rightarrow> (0, CV_EMPTY))
        else (0, CV_EMPTY)),
     cv_cmp = (\<lambda>v1 v2.
        case (v1, v2) of
          (CV_INT a, CV_INT b) \<Rightarrow> (if a < b then - 1 else if a = b then 0 else 1)
        | (CV_STRING a, CV_STRING b) \<Rightarrow> strcmp a b
        | _ \<Rightarrow> 0) \<rparr>"

definition ex_yang_k :: yang_stmt where
  "ex_yang_k = Yang_stmt Y_LEAF ''k'' [] 0 True [] (Type_resolved (Some ''string'') 0) CGV_STRING ''m''"

definition ex_yang_bar :: yang_stmt where
  "ex_yang_bar = Yang_stmt Y_LIST ''bar'' [ex_yang_k] 0 True [''k''] Type_error CGV_ERR ''m''"

definition ex_bar_parent :: cxobj where
  "ex_bar_parent =
     ex_elem ''top'' None
       [ex_elem ''bar'' (Some ex_yang_bar) [ex_elem ''k'' (Some ex_yang_k) [ex_body ''1'']]]"

definition ex_yang_name :: yang_stmt where
  "ex_yang_name =
     Yang_stmt Y_LEAF ''name'' [] 0 True [] (Type_resolved (Some ''string'') 0) CGV_STRING ''m''"

definition ex_yang_interface :: yang_stmt where
  "ex_yang_interface =
     Yang_stmt Y_LIST ''interface'' [ex_yang_name] 0 True [''name''] Type_error CGV_ERR ''m''"

definition ex_interface :: "string \<Rightarrow> cxobj" where
  "ex_interface n =
     ex_elem ''interface'' (Some ex_yang_interface)
       [ex_elem ''name'' (Some ex_yang_name) [ex_body n]]"

definition ex_interfaces :: cxobj where
  "ex_interfaces =
     ex_elem ''interfaces'' None
       [ex_interface ''eth0'', ex_interface ''eth1'', ex_interface ''eth2'']"

text \<open>Three entries of the leaf-list \<open>a\<close>, which is ordered by user.\<close>

definition ex_yang_ll_user :: yang_stmt where
  "ex_yang_ll_user =
     Yang_stmt Y_LEAF_LIST ''a''
       [Yang_stmt Y_ORDERED_BY ''user'' [] 0 True [] Type_error CGV_ERR ''m'']
       0 True [] (Type_resolved (Some ''string'') 0) CGV_STRING ''m''"

definition ex_user_run :: cxobj where
  "ex_user_run =
     ex_elem ''top'' None
       [ex_elem ''a'' (Some ex_yang_ll_user) [ex_body ''x''],
        ex_elem ''a'' (Some ex_yang_ll_user) [ex_body ''y''],
        ex_elem ''a'' (Some ex_yang_ll_user) [ex_body ''w'']]"

text \<open>
  An entry of a list that is ordered by user, with its leaves \<open>v\<close> (order index 1) and
  \<open>k\<close> (order index 0) in arrival order; and the same children under a container of
  state data.
\<close>

definition ex_yang_list_user :: yang_stmt where
  "ex_yang_list_user =
     Yang_stmt Y_LIST ''l''
       [Yang_stmt Y_ORDERED_BY ''user'' [] 0 True [] Type_error CGV_ERR ''m'']
       0 True [''k''] Type_error CGV_ERR ''m''"

definition ex_yang_v :: yang_stmt where
  "ex_yang_v = Yang_stmt Y_LEAF ''v'' [] 1 True [] (Type_resolved (Some ''string'') 0) CGV_STRING ''m''"

definition ex_user_root :: cxobj where
  "ex_user_root =
     ex_elem ''l'' (Some ex_yang_list_user)
       [ex_elem ''v'' (Some ex_yang_v) [ex_body ''2''],
        ex_elem ''k'' (Some ex_yang_k) [ex_body ''1'']]"

definition ex_yang_state :: yang_stmt where
  "ex_yang_state = Yang_stmt Y_CONTAINER ''s'' [] 0 False [] Type_error CGV_ERR ''m''"

definition ex_state_root :: cxobj where
  "ex_state_root =
     ex_elem ''s'' (Some ex_yang_state)
       [ex_elem ''v'' (Some ex_yang_v) [ex_body ''2''],
        ex_elem ''k'' (Some ex_yang_k) [ex_body ''1'']]"

text \<open>Entries of a leaf-list of type \<open>uint32\<close>.\<close>

definition ex_yang_ll_num :: yang_stmt where
  "ex_yang_ll_num =
     Yang_stmt Y_LEAF_LIST ''n'' [] 0 True [] (Type_resolved (Some ''uint32'') 0) CGV_UINT32 ''m''"

definition ex_num :: "string \<Rightarrow> cxobj" where
  "ex_num v = ex_elem ''n'' (Some ex_yang_ll_num) [ex_body v]"

text \<open>The module \<open>clixon-example\<close> with its rpc \<open>example\<close>, and a resolver for it.\<close>

definition ex_yang_x :: yang_stmt where
  "ex_yang_x = Yang_stmt Y_LEAF ''x'' [] 0 True [] (Type_resolved (Some ''uint32'') 0) CGV_UINT32
                 ''clixon-example''"

definition ex_yang_input :: yang_stmt where
  "ex_yang_input = Yang_stmt Y_INPUT [] [ex_yang_x] 0 True [] Type_error CGV_ERR ''clixon-example''"

definition ex_yang_rpc :: yang_stmt where
  "ex_yang_rpc =
     Yang_stmt Y_RPC ''example'' [ex_yang_input] 0 True [] Type_error CGV_ERR ''clixon-example''"

definition ex_yang_module :: yang_stmt where
  "ex_yang_module =
     Yang_stmt Y_MODULE ''clixon-example''
       [Yang_stmt Y_NAMESPACE ''urn:example:clixon'' [] 0 True [] Type_error CGV_ERR ''clixon-example'',
        ex_yang_rpc]
       0 True [] Type_error CGV_ERR ''clixon-example''"

definition ex_resolver :: resolver_env where
  "ex_resolver = \<lparr>
     ys_module_by_xml = (\<lambda>yspec xp. (0, find (\<lambda>m. ys_keyword m = Y_MODULE) yspec)),
     yang_find_schemanode = (\<lambda>ymod name. find (\<lambda>ys. ys_argument ys = name) (ys_stmt ymod)),
     xml_yang_find_non_strict = (\<lambda>x yspec. (0, None)),
     clicon_xml_ns_strict = True \<rparr>"

text \<open>A container with one entry of a leaf-list of strings; a leaf of type \<open>empty\<close>; an
  \<open>xmlns\<close> attribute.\<close>

definition ex_yang_c :: yang_stmt where
  "ex_yang_c = Yang_stmt Y_CONTAINER ''c'' [] 0 True [] Type_error CGV_ERR ''m''"

definition ex_yang_ll_str :: yang_stmt where
  "ex_yang_ll_str =
     Yang_stmt Y_LEAF_LIST ''a'' [] 0 True [] (Type_resolved (Some ''string'') 0) CGV_STRING ''m''"

definition ex_single_leaf_list :: cxobj where
  "ex_single_leaf_list =
     ex_elem ''c'' (Some ex_yang_c) [ex_elem ''a'' (Some ex_yang_ll_str) [ex_body ''1'']]"

definition ex_yang_leaf_empty :: yang_stmt where
  "ex_yang_leaf_empty =
     Yang_stmt Y_LEAF ''e'' [] 1 True [] (Type_resolved (Some ''empty'') 0) CGV_EMPTY ''m''"

definition ex_xmlns :: "string \<Rightarrow> cxobj" where
  "ex_xmlns ns = Cxobj CX_ATTR ''xmlns'' None ns None None []"

text \<open>
  A codec environment for the module \<open>clixon-example\<close>. Its parser knows three texts:
  the top-level objects are the elements the grammar builds for them, member names
  split at the colon.
\<close>

definition ex_pelem :: "string \<Rightarrow> string \<Rightarrow> cxobj list \<Rightarrow> cxobj" where
  "ex_pelem prefix name cs = Cxobj CX_ELMNT name (Some prefix) [] None None cs"

definition ex_json_env :: json_env where
  "ex_json_env = \<lparr>
     je_yspec = [ex_yang_module],
     je_identityref_kludge = False,
     je_prefix_by_namespace = (\<lambda>y ns. None),
     je_parse = (\<lambda>str.
        if str = ''{\"a\":1}'' then Some [ex_elem ''a'' None [ex_body ''1'']]
        else if str = ''{\"clixon-example:input\":{\"x\":0},\"b\":2}'' then
          Some [ex_pelem ''clixon-example'' ''input'' [ex_elem ''x'' None [ex_body ''0'']],
                ex_elem ''b'' None [ex_body ''2'']]
        else if str = ''{\"nomod:a\":1,\"b\":2}'' then
          Some [ex_pelem ''nomod'' ''a'' [ex_body ''1''], ex_elem ''b'' None [ex_body ''2'']]
        else None),
     je_populate0_parent = (\<lambda>xt x. (1, x, None)),
     je_populate0 = (\<lambda>x yspec. (1, x, None)),
     je_apply0_sort = (\<lambda>xt. (0, xt)) \<rparr>"

lemmas ex_defs =
  ex_elem_def ex_body_def ex_yang_a_def ex_yang_k_def ex_yang_bar_def ex_bar_parent_def
  ex_yang_name_def ex_yang_interface_def ex_interface_def ex_interfaces_def
  ex_yang_ll_user_def ex_user_run_def ex_yang_list_user_def ex_yang_v_def ex_user_root_def
  ex_yang_state_def ex_state_root_def ex_yang_ll_num_def ex_num_def
  ex_yang_x_def ex_yang_input_def ex_yang_rpc_def ex_yang_module_def
  ex_yang_c_def ex_yang_ll_str_def ex_single_leaf_list_def ex_yang_leaf_empty_def ex_xmlns_def
  ex_pelem_def

section \<open>Properties of the primitives\<close>

lemma strcmp_refl [simp]: "strcmp s s = 0"
  by (induction s) auto

lemma strcmp_eq_0: "strcmp a b = 0 \<longleftrightarrow> a = b"
  by (induction a b rule: strcmp.induct) auto

section \<open>The linear matcher refuses keys for a container or leaf\<close>

text \<open>
  Claim C10. When \<open>xml_match\<close> is called with keyword \<open>container\<close> or \<open>leaf\<close> and a key
  count other than zero, it returns no child, whatever the children of the parent are
  (it records the message of \<open>clicon_err\<close> and leaves the switch). The function only
  reads the tree.
\<close>

theorem xml_match_container_leaf_keynr:
  assumes "keyword = Y_CONTAINER \<or> keyword = Y_LEAF" and "keynr \<noteq> 0"
  shows "xml_match x0 name keyword keynr keyvec keyval =
           Ret (None, Some ''Expected no key argument to CONTAINER or LEAF'')"
  using assms by (auto simp: xml_match_def)

text \<open>
  At \<open><top><a/><u/></top>\<close> the call with one key returns nothing, although the child
  \<open>a\<close> is there: the same call without keys returns it.
\<close>

theorem xml_match_container_leaf_keynr_witness:
  "xml_match ex_parent_unbound_mid ''a'' Y_CONTAINER 1 [''k''] [''v''] =
     Ret (None, Some ''Expected no key argument to CONTAINER or LEAF'') \<and>
   xml_match ex_parent_unbound_mid ''a'' Y_CONTAINER 0 [] [] = Ret (Some 0, None)"
proof (rule conjI)
  show "xml_match ex_parent_unbound_mid ''a'' Y_CONTAINER 1 [''k''] [''v''] =
          Ret (None, Some ''Expected no key argument to CONTAINER or LEAF'')"
    by (rule xml_match_container_leaf_keynr) simp_all
  show "xml_match ex_parent_unbound_mid ''a'' Y_CONTAINER 0 [] [] = Ret (Some 0, None)"
    by (simp add: xml_match_def xml_find_def ex_parent_unbound_mid_def ex_elem_def)
qed

section \<open>An unbound child at a probed midpoint ends the search\<close>

text \<open>
  Claim C9. In every call of the binary search (\<open>xml_search\<close> enters it with the whole
  range, and each recursive call returns its result unchanged), when the child at the
  midpoint of the current range has no bound statement the result is absent: no other
  child is examined.
\<close>

theorem xml_search1_unbound_midpoint:
  assumes "low \<le> upper"
    and "0 \<le> c_div (low + upper) 2"
    and "c_div (low + upper) 2 < xml_child_nr x0"
    and "xml_spec (xml_childvec x0 ! nat (c_div (low + upper) 2)) = None"
  shows "xml_search1 x0 name yangi keyword keynr keyvec keyval low upper = Ret None"
  using assms by (subst xml_search1.simps) (simp add: xml_child_i_def Let_def)

text \<open>
  At \<open><top><a/><u/></top>\<close> the first midpoint is the unbound \<open>u\<close>: the search for the
  container \<open>a\<close> (order index 0) finds nothing, although the child at index 0 is bound
  to it and matches the query.
\<close>

theorem xml_search1_unbound_midpoint_witness:
  "xml_search ex_parent_unbound_mid ''a'' 0 Y_CONTAINER 0 [] [] = Ret None \<and>
   xml_spec (xml_childvec ex_parent_unbound_mid ! 0) = Some ex_yang_a \<and>
   yang_order ex_yang_a = 0 \<and>
   xml_cmp1 (xml_childvec ex_parent_unbound_mid ! 0) ex_yang_a ''a'' Y_CONTAINER 0 [] []
     (Some False) = Ret (0, Some False)"
proof (intro conjI)
  have "xml_search1 ex_parent_unbound_mid ''a'' 0 Y_CONTAINER 0 [] [] 0 2 = Ret None"
    by (rule xml_search1_unbound_midpoint)
       (simp_all add: c_div_def xml_child_nr_def ex_parent_unbound_mid_def ex_elem_def)
  then show "xml_search ex_parent_unbound_mid ''a'' 0 Y_CONTAINER 0 [] [] = Ret None"
    by (simp add: xml_search_def xml_child_nr_def ex_parent_unbound_mid_def ex_elem_def)
  show "xml_spec (xml_childvec ex_parent_unbound_mid ! 0) = Some ex_yang_a"
    by (simp add: ex_parent_unbound_mid_def ex_elem_def)
  show "yang_order ex_yang_a = 0"
    by (simp add: ex_yang_a_def)
  show "xml_cmp1 (xml_childvec ex_parent_unbound_mid ! 0) ex_yang_a ''a'' Y_CONTAINER 0 [] []
          (Some False) = Ret (0, Some False)"
    by (simp add: xml_cmp1_def ex_parent_unbound_mid_def ex_elem_def ex_yang_a_def)
qed

section \<open>What the binary search returns\<close>

subsection \<open>A returned child matches the query\<close>

lemma xml_cmp1_keys_sound:
  "xml_cmp1_keys x n kv kl m = Ret 0 \<Longrightarrow> (\<forall>j<n. xml_find_body x (kv ! j) \<noteq> None) \<Longrightarrow>
   (\<forall>j<n. xml_find_body x (kv ! j) = Some (kl ! j))"
proof (induction x n kv kl m rule: xml_cmp1_keys.induct)
  case (1 x keyvec keyval match)
  then show ?case by simp
next
  case (2 x n keyname keyvec key keyval match)
  from "2.prems"(2) obtain b where b: "xml_find_body x keyname = Some b"
    by fastforce
  with "2.prems"(1) have z: "strcmp key b = 0"
    by (auto split: if_splits)
  with b "2.prems"(1) have r: "xml_cmp1_keys x n keyvec keyval (strcmp key b) = Ret 0"
    by simp
  from "2.prems"(2) have "\<forall>j<n. xml_find_body x (keyvec ! j) \<noteq> None"
    by fastforce
  with "2.IH" b z r have ih: "\<forall>j<n. xml_find_body x (keyvec ! j) = Some (keyval ! j)"
    by simp
  from z have "key = b" by (simp add: strcmp_eq_0)
  with b ih show ?case
    by (auto simp: less_Suc_eq_0_disj)
qed simp_all

lemma xml_cmp1_keys_no_fault:
  "n \<le> length kv \<Longrightarrow> n \<le> length kl \<Longrightarrow> xml_cmp1_keys x n kv kl m \<noteq> Fault"
  by (induction x n kv kl m rule: xml_cmp1_keys.induct) (auto split: option.splits)

lemma xml_cmp1_zero:
  assumes "xml_cmp1 c y name keyword keynr keyvec keyval uo = Ret (0, u)"
  shows "(keyword = Y_CONTAINER \<or> keyword = Y_LEAF \<longrightarrow> xml_name c = name) \<and>
         (keyword = Y_LEAF_LIST \<longrightarrow> keyval \<noteq> [] \<and> xml_body c = Some (hd keyval)) \<and>
         (keyword = Y_LIST \<longrightarrow> (\<forall>j<nat keynr. xml_find_body c (keyvec ! j) \<noteq> None) \<longrightarrow>
            (\<forall>j<nat keynr. xml_find_body c (keyvec ! j) = Some (keyval ! j)))"
proof -
  have a: "xml_name c = name" if "keyword = Y_CONTAINER \<or> keyword = Y_LEAF"
    using assms that by (auto simp: xml_cmp1_def Let_def strcmp_eq_0)
  have b: "keyval \<noteq> [] \<and> xml_body c = Some (hd keyval)" if "keyword = Y_LEAF_LIST"
    using assms that
    by (auto simp: xml_cmp1_def Let_def strcmp_eq_0 split: option.splits list.splits)
  have l: "\<forall>j<nat keynr. xml_find_body c (keyvec ! j) = Some (keyval ! j)"
    if k: "keyword = Y_LIST" and p: "\<forall>j<nat keynr. xml_find_body c (keyvec ! j) \<noteq> None"
  proof -
    from assms k have "xml_cmp1_keys c (nat keynr) keyvec keyval 0 = Ret 0"
      by (auto simp: xml_cmp1_def Let_def split: outcome.splits)
    from xml_cmp1_keys_sound[OF this p] show ?thesis .
  qed
  from a b l show ?thesis by blast
qed

lemma userorder_up_sound:
  "userorder_up xs i name yangi keyword keynr keyvec keyval = Ret (Some k) \<Longrightarrow>
   i \<le> k \<and> k < i + length xs \<and>
   (\<exists>y u. xml_spec (xs ! (k - i)) = Some y \<and> yang_order y = yangi \<and>
      xml_cmp1 (xs ! (k - i)) y name keyword keynr keyvec keyval None = Ret (0, u))"
proof (induction xs i name yangi keyword keynr keyvec keyval rule: userorder_up.induct)
  case (1 i name yangi keyword keynr keyvec keyval)
  then show ?case by simp
next
  case (2 xc xs i name yangi keyword keynr keyvec keyval)
  from "2.prems" obtain y where y: "xml_spec xc = Some y" and o: "yangi = yang_order y"
    by (auto split: option.splits if_splits)
  from "2.prems" y o obtain m u where
    c: "xml_cmp1 xc y name keyword keynr keyvec keyval None = Ret (m, u)"
    by (auto split: outcome.splits)
  show ?case
  proof (cases "m = 0")
    case True
    with "2.prems" y o c have "k = i" by simp
    with y o c True show ?thesis by auto
  next
    case False
    with "2.prems" y o c have
      r: "userorder_up xs (Suc i) name yangi keyword keynr keyvec keyval = Ret (Some k)"
      by simp
    from "2.IH" y o c False r
    have ih: "Suc i \<le> k \<and> k < Suc i + length xs \<and>
      (\<exists>y u. xml_spec (xs ! (k - Suc i)) = Some y \<and> yang_order y = yangi \<and>
        xml_cmp1 (xs ! (k - Suc i)) y name keyword keynr keyvec keyval None = Ret (0, u))"
      by simp
    then have "k - i = Suc (k - Suc i)"
      by arith
    then have "(xc # xs) ! (k - i) = xs ! (k - Suc i)"
      by simp
    with ih show ?thesis by auto
  qed
qed

lemma userorder_down_sound:
  "userorder_down x0 n name yangi keyword keynr keyvec keyval = Ret (Some k) \<Longrightarrow>
   k < n \<and> k < length (xml_childvec x0) \<and>
   (\<exists>y u. xml_spec (xml_childvec x0 ! k) = Some y \<and> yang_order y = yangi \<and>
      xml_cmp1 (xml_childvec x0 ! k) y name keyword keynr keyvec keyval None = Ret (0, u))"
proof (induction n)
  case 0
  then show ?case by simp
next
  case (Suc n)
  from Suc.prems obtain xc where xc: "xml_child_i x0 (int n) = Ret (Some xc)"
    by (auto split: outcome.splits option.splits)
  then have n: "n < length (xml_childvec x0)" and xcn: "xc = xml_childvec x0 ! n"
    by (auto simp: xml_child_i_def xml_child_nr_def split: if_splits)
  from Suc.prems xc obtain y where y: "xml_spec xc = Some y" and o: "yangi = yang_order y"
    by (auto split: option.splits if_splits)
  from Suc.prems xc y o obtain m u where
    c: "xml_cmp1 xc y name keyword keynr keyvec keyval None = Ret (m, u)"
    by (auto split: outcome.splits)
  show ?case
  proof (cases "m = 0")
    case True
    with Suc.prems xc y o c have "k = n" by simp
    with y o c True n xcn show ?thesis by auto
  next
    case False
    with Suc.prems xc y o c have
      "userorder_down x0 n name yangi keyword keynr keyvec keyval = Ret (Some k)"
      by simp
    from Suc.IH[OF this] show ?thesis by auto
  qed
qed

lemma xml_search_userorder_sound:
  assumes "xml_search_userorder x0 name yangi mid keyword keynr keyvec keyval = Ret (Some k)"
  shows "k < length (xml_childvec x0) \<and>
   (\<exists>y u. xml_spec (xml_childvec x0 ! k) = Some y \<and> yang_order y = yangi \<and>
      xml_cmp1 (xml_childvec x0 ! k) y name keyword keynr keyvec keyval None = Ret (0, u))"
proof -
  from assms have mid: "0 \<le> mid"
    by (auto simp: xml_search_userorder_def split: if_splits)
  let ?up = "userorder_up (drop (nat (mid + 1)) (xml_childvec x0)) (nat (mid + 1))
               name yangi keyword keynr keyvec keyval"
  show ?thesis
  proof (cases "?up = Ret (Some k)")
    case True
    from userorder_up_sound[OF True]
    have b: "nat (mid + 1) \<le> k" "k < nat (mid + 1) + length (drop (nat (mid + 1)) (xml_childvec x0))"
      and e: "\<exists>y u. xml_spec (drop (nat (mid + 1)) (xml_childvec x0) ! (k - nat (mid + 1))) = Some y \<and>
        yang_order y = yangi \<and>
        xml_cmp1 (drop (nat (mid + 1)) (xml_childvec x0) ! (k - nat (mid + 1))) y name keyword
          keynr keyvec keyval None = Ret (0, u)"
      by auto
    from b have kl: "k < length (xml_childvec x0)" by auto
    with b have "drop (nat (mid + 1)) (xml_childvec x0) ! (k - nat (mid + 1)) = xml_childvec x0 ! k"
      by simp
    with e kl show ?thesis by simp
  next
    case False
    with assms mid have
      "userorder_down x0 (nat mid) name yangi keyword keynr keyvec keyval = Ret (Some k)"
      by (auto simp: xml_search_userorder_def split: outcome.splits option.splits)
    from userorder_down_sound[OF this] show ?thesis by auto
  qed
qed

lemma xml_search1_sound:
  "xml_search1 x0 name yangi keyword keynr keyvec keyval low upper = Ret (Some k) \<Longrightarrow>
   k < length (xml_childvec x0) \<and>
   (\<exists>y uo u. xml_spec (xml_childvec x0 ! k) = Some y \<and> yang_order y = yangi \<and>
      xml_cmp1 (xml_childvec x0 ! k) y name keyword keynr keyvec keyval uo = Ret (0, u))"
proof (induction x0 name yangi keyword keynr keyvec keyval low upper rule: xml_search1.induct)
  case (1 x0 name yangi keyword keynr keyvec keyval low upper)
  let ?mid = "c_div (low + upper) 2"
  from "1.prems" have lu: "\<not> upper < low"
    by (subst (asm) xml_search1.simps) (auto split: if_splits)
  from "1.prems" lu have mu: "\<not> ?mid \<ge> xml_child_nr x0"
    by (subst (asm) xml_search1.simps) (auto simp: Let_def split: if_splits)
  from "1.prems" lu mu obtain xc where xc: "xml_child_i x0 ?mid = Ret (Some xc)"
    by (subst (asm) xml_search1.simps) (auto simp: Let_def split: outcome.splits option.splits)
  then have m0: "0 \<le> ?mid" and xcm: "xc = xml_childvec x0 ! nat ?mid"
    and ml: "nat ?mid < length (xml_childvec x0)"
    by (auto simp: xml_child_i_def xml_child_nr_def split: if_splits)
  from "1.prems" lu mu xc obtain y where y: "xml_spec xc = Some y"
    by (subst (asm) xml_search1.simps) (auto simp: Let_def split: option.splits)
  note unf = xml_search1.simps[of x0 name yangi keyword keynr keyvec keyval low upper]
  show ?case
  proof (cases "yangi - yang_order y = 0")
    case True
    from "1.prems" lu mu xc y True obtain cmp userorder where
      c: "xml_cmp1 xc y name keyword keynr keyvec keyval (Some False) = Ret (cmp, userorder)"
      by (subst (asm) unf) (auto simp: Let_def split: outcome.splits)
    consider (uo) "userorder = Some True \<and> cmp \<noteq> 0"
      | (hit) "\<not> (userorder = Some True \<and> cmp \<noteq> 0)" "cmp = 0"
      | (lo) "\<not> (userorder = Some True \<and> cmp \<noteq> 0)" "cmp < 0"
      | (hi) "\<not> (userorder = Some True \<and> cmp \<noteq> 0)" "cmp > 0"
      by linarith
    then show ?thesis
    proof cases
      case uo
      with "1.prems" lu mu xc y True c have
        "xml_search_userorder x0 name yangi ?mid keyword keynr keyvec keyval = Ret (Some k)"
        by (subst (asm) unf) (simp add: Let_def)
      from xml_search_userorder_sound[OF this] show ?thesis by blast
    next
      case hit
      with "1.prems" lu mu xc y True c have "k = nat ?mid"
        by (subst (asm) unf) (auto simp: Let_def)
      with ml xcm y True c hit show ?thesis by auto
    next
      case lo
      with "1.prems" lu mu xc y True c have
        r: "xml_search1 x0 name yangi keyword keynr keyvec keyval low (?mid - 1) = Ret (Some k)"
        by (subst (asm) unf) (auto simp: Let_def)
      from lo have ne: "cmp \<noteq> 0" by simp
      show ?thesis
        using "1.IH"(1) lu mu xc y True c ne lo r by simp
    next
      case hi
      with "1.prems" lu mu xc y True c have
        r: "xml_search1 x0 name yangi keyword keynr keyvec keyval (?mid + 1) upper = Ret (Some k)"
        by (subst (asm) unf) (auto simp: Let_def)
      from hi have ne: "cmp \<noteq> 0" and nl: "\<not> cmp < 0" by simp_all
      show ?thesis
        using "1.IH"(2) lu mu xc y True c ne nl hi r by simp
    qed
  next
    case False
    show ?thesis
    proof (cases "yangi - yang_order y < 0")
      case True
      with "1.prems" lu mu xc y False have
        r: "xml_search1 x0 name yangi keyword keynr keyvec keyval low (?mid - 1) = Ret (Some k)"
        by (subst (asm) unf) (auto simp: Let_def)
      show ?thesis
        using "1.IH"(3) lu mu xc y False True r by simp
    next
      case nl: False
      with "1.prems" lu mu xc y False have
        r: "xml_search1 x0 name yangi keyword keynr keyvec keyval (?mid + 1) upper = Ret (Some k)"
        by (subst (asm) unf) (auto simp: Let_def)
      show ?thesis
        using "1.IH"(4) lu mu xc y False nl r by simp
    qed
  qed
qed

subsection \<open>No out-of-range read\<close>

lemma xml_cmp1_no_fault:
  "query_wf keyword keynr keyvec keyval \<Longrightarrow>
   xml_cmp1 c y name keyword keynr keyvec keyval uo \<noteq> Fault"
  using xml_cmp1_keys_no_fault[of "nat keynr" keyvec keyval c 0]
  by (auto simp: xml_cmp1_def query_wf_def Let_def split: option.splits list.splits outcome.splits if_splits)

lemma userorder_up_no_fault:
  "\<forall>c\<in>set xs. xml_spec c \<noteq> None \<Longrightarrow> query_wf keyword keynr keyvec keyval \<Longrightarrow>
   userorder_up xs i name yangi keyword keynr keyvec keyval \<noteq> Fault"
proof (induction xs arbitrary: i)
  case Nil
  then show ?case by simp
next
  case (Cons xc xs)
  then obtain y where y: "xml_spec xc = Some y" by auto
  from Cons.prems(2) have "xml_cmp1 xc y name keyword keynr keyvec keyval None \<noteq> Fault"
    by (rule xml_cmp1_no_fault)
  then obtain m u where c: "xml_cmp1 xc y name keyword keynr keyvec keyval None = Ret (m, u)"
    by (cases "xml_cmp1 xc y name keyword keynr keyvec keyval None") auto
  from Cons.IH[of "Suc i"] Cons.prems y c show ?case by auto
qed

lemma userorder_down_no_fault:
  "\<forall>c\<in>set (xml_childvec x0). xml_spec c \<noteq> None \<Longrightarrow> n \<le> length (xml_childvec x0) \<Longrightarrow>
   query_wf keyword keynr keyvec keyval \<Longrightarrow>
   userorder_down x0 n name yangi keyword keynr keyvec keyval \<noteq> Fault"
proof (induction n)
  case 0
  then show ?case by simp
next
  case (Suc n)
  from Suc.prems(2) have xc: "xml_child_i x0 (int n) = Ret (Some (xml_childvec x0 ! n))"
    by (simp add: xml_child_i_def xml_child_nr_def)
  from Suc.prems(1,2) obtain y where y: "xml_spec (xml_childvec x0 ! n) = Some y"
    by (metis Suc_le_lessD nth_mem not_None_eq)
  from Suc.prems(3)
  have "xml_cmp1 (xml_childvec x0 ! n) y name keyword keynr keyvec keyval None \<noteq> Fault"
    by (rule xml_cmp1_no_fault)
  then obtain m u where
    c: "xml_cmp1 (xml_childvec x0 ! n) y name keyword keynr keyvec keyval None = Ret (m, u)"
    by (cases "xml_cmp1 (xml_childvec x0 ! n) y name keyword keynr keyvec keyval None") auto
  from Suc.IH Suc.prems xc y c show ?case by auto
qed

lemma xml_search_userorder_no_fault:
  assumes "\<forall>c\<in>set (xml_childvec x0). xml_spec c \<noteq> None"
    and "0 \<le> mid" and "mid < xml_child_nr x0"
    and "query_wf keyword keynr keyvec keyval"
  shows "xml_search_userorder x0 name yangi mid keyword keynr keyvec keyval \<noteq> Fault"
proof -
  from assms(1) have "\<forall>c\<in>set (drop (nat (mid + 1)) (xml_childvec x0)). xml_spec c \<noteq> None"
    by (meson in_set_dropD)
  from userorder_up_no_fault[OF this assms(4)]
  have up: "userorder_up (drop (nat (mid + 1)) (xml_childvec x0)) (nat (mid + 1))
               name yangi keyword keynr keyvec keyval \<noteq> Fault" .
  from assms(2,3) have "nat mid \<le> length (xml_childvec x0)"
    by (simp add: xml_child_nr_def)
  from userorder_down_no_fault[OF assms(1) this assms(4)]
  have "userorder_down x0 (nat mid) name yangi keyword keynr keyvec keyval \<noteq> Fault" .
  with up assms(2) show ?thesis
    by (auto simp: xml_search_userorder_def split: outcome.splits option.splits)
qed

lemma xml_search1_no_fault:
  "0 \<le> low \<Longrightarrow> \<forall>c\<in>set (xml_childvec x0). xml_spec c \<noteq> None \<Longrightarrow>
   query_wf keyword keynr keyvec keyval \<Longrightarrow>
   xml_search1 x0 name yangi keyword keynr keyvec keyval low upper \<noteq> Fault"
proof (induction x0 name yangi keyword keynr keyvec keyval low upper rule: xml_search1.induct)
  case (1 x0 name yangi keyword keynr keyvec keyval low upper)
  let ?mid = "c_div (low + upper) 2"
  note unf = xml_search1.simps[of x0 name yangi keyword keynr keyvec keyval low upper]
  show ?case
  proof (cases "upper < low \<or> ?mid \<ge> xml_child_nr x0")
    case True
    then show ?thesis by (subst unf) (auto simp: Let_def)
  next
    case False
    then have lu: "\<not> upper < low" and mu: "\<not> ?mid \<ge> xml_child_nr x0" by auto
    from lu "1.prems"(1) have m0: "0 \<le> ?mid"
      using c_div_2_bounds[of low upper] by simp
    with mu have xc: "xml_child_i x0 ?mid = Ret (Some (xml_childvec x0 ! nat ?mid))"
      by (simp add: xml_child_i_def)
    let ?xc = "xml_childvec x0 ! nat ?mid"
    from m0 mu "1.prems"(2) obtain y where y: "xml_spec ?xc = Some y"
      by (metis nth_mem not_None_eq nat_less_iff not_le xml_child_nr_def)
    from "1.prems"(3)
    have "xml_cmp1 ?xc y name keyword keynr keyvec keyval (Some False) \<noteq> Fault"
      by (rule xml_cmp1_no_fault)
    then obtain cmp userorder where
      c: "xml_cmp1 ?xc y name keyword keynr keyvec keyval (Some False) = Ret (cmp, userorder)"
      by (cases "xml_cmp1 ?xc y name keyword keynr keyvec keyval (Some False)") auto
    from m0 mu "1.prems" have
      uf: "xml_search_userorder x0 name yangi ?mid keyword keynr keyvec keyval \<noteq> Fault"
      by (intro xml_search_userorder_no_fault) auto
    from m0 have m1: "0 \<le> ?mid + 1" by simp
    have lo1: "xml_search1 x0 name yangi keyword keynr keyvec keyval low (?mid - 1) \<noteq> Fault"
      if "yangi - yang_order y = 0" "\<not> (userorder = Some True \<and> cmp \<noteq> 0)" "cmp \<noteq> 0" "cmp < 0"
      using "1.IH"(1)[OF lu refl mu xc refl y that(1) c refl that(2,3,4)] "1.prems" by simp
    have hi1: "xml_search1 x0 name yangi keyword keynr keyvec keyval (?mid + 1) upper \<noteq> Fault"
      if "yangi - yang_order y = 0" "\<not> (userorder = Some True \<and> cmp \<noteq> 0)" "cmp \<noteq> 0" "\<not> cmp < 0"
      using "1.IH"(2)[OF lu refl mu xc refl y that(1) c refl that(2,3,4)] "1.prems" m1 by simp
    have lo2: "xml_search1 x0 name yangi keyword keynr keyvec keyval low (?mid - 1) \<noteq> Fault"
      if "yangi - yang_order y \<noteq> 0" "yangi - yang_order y < 0"
      using "1.IH"(3)[OF lu refl mu xc refl y that] "1.prems" by simp
    have hi2: "xml_search1 x0 name yangi keyword keynr keyvec keyval (?mid + 1) upper \<noteq> Fault"
      if "yangi - yang_order y \<noteq> 0" "\<not> yangi - yang_order y < 0"
      using "1.IH"(4)[OF lu refl mu xc refl y that] "1.prems" m1 by simp
    from lu mu xc y c uf lo1 hi1 lo2 hi2 show ?thesis
      by (subst unf) (auto simp: Let_def)
  qed
qed

subsection \<open>The search result\<close>

text \<open>
  Claim C1, as amended. For every parent and every query, \<open>xml_search\<close> returns absent or
  (the index of) a child whose bound statement has the order index of the query and
  which satisfies the predicate of the keyword: for a container or leaf the same name;
  for a leaf-list a body equal to the single value; for a list every key body equal to
  the key value, in order, when the child carries a body for every key name. The
  element name is compared for container and leaf only. The function has no error
  result, and it makes no out-of-range read when every child of the parent is bound
  and the key arrays are as long as the keyword requires.
\<close>

theorem xml_search_result:
  "(xml_search x0 name yangi keyword keynr keyvec keyval = Ret (Some i) \<longrightarrow>
      i < length (xml_childvec x0) \<and>
      map_option yang_order (xml_spec (xml_childvec x0 ! i)) = Some yangi \<and>
      (keyword = Y_CONTAINER \<or> keyword = Y_LEAF \<longrightarrow> xml_name (xml_childvec x0 ! i) = name) \<and>
      (keyword = Y_LEAF_LIST \<longrightarrow>
         keyval \<noteq> [] \<and> xml_body (xml_childvec x0 ! i) = Some (hd keyval)) \<and>
      (keyword = Y_LIST \<longrightarrow>
         (\<forall>j<nat keynr. xml_find_body (xml_childvec x0 ! i) (keyvec ! j) \<noteq> None) \<longrightarrow>
         (\<forall>j<nat keynr. xml_find_body (xml_childvec x0 ! i) (keyvec ! j) = Some (keyval ! j)))) \<and>
   ((\<forall>c\<in>set (xml_childvec x0). xml_spec c \<noteq> None) \<and> query_wf keyword keynr keyvec keyval \<longrightarrow>
      xml_search x0 name yangi keyword keynr keyvec keyval \<noteq> Fault)"
proof (intro conjI impI)
  assume "xml_search x0 name yangi keyword keynr keyvec keyval = Ret (Some i)"
  then have "xml_search1 x0 name yangi keyword keynr keyvec keyval 0 (xml_child_nr x0) = Ret (Some i)"
    by (simp add: xml_search_def)
  from xml_search1_sound[OF this] obtain y uo u where
    i: "i < length (xml_childvec x0)"
    and y: "xml_spec (xml_childvec x0 ! i) = Some y" "yang_order y = yangi"
    and c: "xml_cmp1 (xml_childvec x0 ! i) y name keyword keynr keyvec keyval uo = Ret (0, u)"
    by blast
  note z = xml_cmp1_zero[OF c]
  show "i < length (xml_childvec x0)" by (rule i)
  show "map_option yang_order (xml_spec (xml_childvec x0 ! i)) = Some yangi"
    using y by simp
  show "xml_name (xml_childvec x0 ! i) = name" if "keyword = Y_CONTAINER \<or> keyword = Y_LEAF"
    using z that by blast
  show "keyval \<noteq> []" if "keyword = Y_LEAF_LIST"
    using z that by blast
  show "xml_body (xml_childvec x0 ! i) = Some (hd keyval)" if "keyword = Y_LEAF_LIST"
    using z that by blast
  show "\<forall>j<nat keynr. xml_find_body (xml_childvec x0 ! i) (keyvec ! j) = Some (keyval ! j)"
    if "keyword = Y_LIST" "\<forall>j<nat keynr. xml_find_body (xml_childvec x0 ! i) (keyvec ! j) \<noteq> None"
    using z that by blast
next
  assume "(\<forall>c\<in>set (xml_childvec x0). xml_spec c \<noteq> None) \<and> query_wf keyword keynr keyvec keyval"
  then show "xml_search x0 name yangi keyword keynr keyvec keyval \<noteq> Fault"
    unfolding xml_search_def by (intro xml_search1_no_fault) auto
qed

text \<open>
  Three interfaces \<open>eth0\<close>, \<open>eth1\<close>, \<open>eth2\<close> of a list keyed by \<open>name\<close>: the search
  for \<open>name = eth1\<close> returns the second child.
\<close>

lemma ex_interfaces_search:
  "xml_search ex_interfaces ''interface'' 0 Y_LIST 1 [''name''] [''eth1''] = Ret (Some 1)"
  by (simp add: xml_search_def xml_search1.simps xml_child_nr_def xml_child_i_def c_div_def
      xml_cmp1_def xml_find_body_def xml_body_def ordered_by_user_def yang_find_def Let_def ex_defs)

theorem xml_search_result_witness:
  "xml_search ex_interfaces ''interface'' 0 Y_LIST 1 [''name''] [''eth1''] = Ret (Some 1) \<and>
   xml_find_body (xml_childvec ex_interfaces ! 1) ''name'' = Some ''eth1'' \<and>
   map_option yang_order (xml_spec (xml_childvec ex_interfaces ! 1)) = Some 0 \<and>
   xml_search ex_interfaces ''interface'' 0 Y_LIST 1 [''name''] [''eth1''] \<noteq> Fault"
proof -
  note r = xml_search_result[of ex_interfaces "''interface''" 0 Y_LIST 1 "[''name'']" "[''eth1'']" 1]
  have p: "\<forall>j<nat 1. xml_find_body (xml_childvec ex_interfaces ! 1) ([''name''] ! j) \<noteq> None"
    by (simp add: xml_find_body_def xml_body_def ex_defs)
  have b: "\<forall>c\<in>set (xml_childvec ex_interfaces). xml_spec c \<noteq> None"
    by (simp add: ex_defs)
  have w: "query_wf Y_LIST 1 [''name''] [''eth1'']"
    by (simp add: query_wf_def)
  from r ex_interfaces_search p
  have "\<forall>j<nat 1. xml_find_body (xml_childvec ex_interfaces ! 1) ([''name''] ! j) = Some ([''eth1''] ! j)"
    by blast
  then have k: "xml_find_body (xml_childvec ex_interfaces ! 1) ''name'' = Some ''eth1''"
    by simp
  from r ex_interfaces_search
  have o: "map_option yang_order (xml_spec (xml_childvec ex_interfaces ! 1)) = Some 0"
    by blast
  from r b w have f: "xml_search ex_interfaces ''interface'' 0 Y_LIST 1 [''name''] [''eth1''] \<noteq> Fault"
    by blast
  from ex_interfaces_search k o f show ?thesis by blast
qed

text \<open>
  The claim as stated asks for the same name in every case. The parent
  \<open><top><bar><k>1</k></bar></top>\<close> is sorted; the search for a list entry named \<open>foo\<close>
  with order index 0 and key \<open>k = 1\<close> returns the child named \<open>bar\<close>.
\<close>

theorem xml_search_name_counterexample:
  "xml_sort_verify ex_cv_env ex_bar_parent = Ret (0, ex_bar_parent) \<and>
   xml_search ex_bar_parent ''foo'' 0 Y_LIST 1 [''k''] [''1''] = Ret (Some 0) \<and>
   xml_name (xml_childvec ex_bar_parent ! 0) = ''bar'' \<and>
   xml_find_body (xml_childvec ex_bar_parent ! 0) ''k'' = Some ''1''"
  by (simp add: xml_sort_verify_def xml_childvec_set_def
      xml_search_def xml_search1.simps xml_child_nr_def xml_child_i_def c_div_def
      xml_cmp1_def xml_find_body_def xml_body_def ordered_by_user_def yang_find_def Let_def ex_defs)

section \<open>The insert position in a run that is ordered by user\<close>






section \<open>Sort keeps state data as it arrived\<close>

text \<open>
  Claim C4, as amended. For every tree whose root element is bound to a statement of
  state data (\<open>config false\<close>), \<open>xml_sort\<close> returns 1 and leaves the tree unchanged. A
  root that is ordered by user is sorted like any other: ordered-by user is read from
  the statement of the children that are compared, not from the statement of their
  parent.
\<close>

theorem xml_sort_state_data:
  assumes "xml_spec x = Some ys" and "\<not> yang_config ys"
  shows "xml_sort env x = Ret (1, x)"
  using assms by (simp add: xml_sort_def)

theorem xml_sort_state_data_witness:
  "xml_sort ex_cv_env ex_state_root = Ret (1, ex_state_root)"
  by (rule xml_sort_state_data[where ys = ex_yang_state])
     (simp_all add: ex_state_root_def ex_elem_def ex_yang_state_def)

text \<open>
  The claim as stated includes a root that is ordered by user. The list entry
  \<open><l><v>2</v><k>1</k></l>\<close> of a user-ordered list is bound to it; sort moves the leaf
  \<open>k\<close> (order index 0) before the leaf \<open>v\<close> (order index 1).
\<close>

theorem xml_sort_user_root_counterexample:
  "xml_spec ex_user_root = Some ex_yang_list_user \<and>
   ordered_by_user ex_yang_list_user \<and>
   xml_sort ex_cv_env ex_user_root =
     Ret (0, ex_elem ''l'' (Some ex_yang_list_user)
               [ex_elem ''k'' (Some ex_yang_k) [ex_body ''1''],
                ex_elem ''v'' (Some ex_yang_v) [ex_body ''2'']]) \<and>
   xml_sort ex_cv_env ex_user_root \<noteq> Ret (0, ex_user_root) \<and>
   xml_sort ex_cv_env ex_user_root \<noteq> Ret (1, ex_user_root)"
  by (simp add: xml_sort_def xml_cmp_def xml_childvec_set_def ordered_by_user_def yang_find_def
      ex_user_root_def ex_yang_list_user_def ex_yang_v_def ex_yang_k_def ex_elem_def ex_body_def)

section \<open>The comparator on two entries of a leaf-list\<close>

text \<open>
  The typed value of a body that has no cached value: the parse of the body under the
  value kind of the resolved type of the statement.
\<close>

lemma xml_cv_cache_parse:
  assumes "xml_cv x = None" and "xml_spec x = Some y"
    and "yang_type_get y = Type_resolved (Some tname) n"
    and "yang2cv_type env tname \<noteq> CGV_ERR"
    and "cv_parse1 env body (yang2cv_type env tname)
           (if yang2cv_type env tname = CGV_DEC64 then n else 0) = (ret, v)"
    and "0 < ret"
  shows "xml_cv_cache env x body = Ret (0, Some v, xml_cv_set x v)"
  using assms by (simp add: xml_cv_cache_def Let_def)




section \<open>The schema resolver and rpc\<close>

lemma yang_find_datanode_in_datanode:
  "yang_find_datanode_in ys a = Some y \<Longrightarrow> yang_datanode y"
  "yang_find_datanode_choice zs b = Some y \<Longrightarrow> yang_datanode y"
  by (induction ys a and zs b rule: yang_find_datanode_in_yang_find_datanode_choice.induct)
     (auto split: option.splits if_splits)

lemma rpc_input_datanode: "rpc_input (yang_find_datanode yn a) = yang_find_datanode yn a"
proof (cases "yang_find_datanode yn a")
  case None
  then show ?thesis by (simp add: rpc_input_def)
next
  case (Some y)
  with yang_find_datanode_in_datanode(1)[of "ys_stmt yn" a y] have "yang_datanode y"
    by (simp add: yang_find_datanode_def)
  then have "ys_keyword y \<noteq> Y_RPC"
    by (auto simp: yang_datanode_def)
  with Some show ?thesis by (simp add: rpc_input_def)
qed

text \<open>
  Claim C8. For a child \<open>x\<close> whose parent is bound to an \<open>rpc\<close> statement with an
  \<open>input\<close> sub-statement, \<open>xml_child_spec\<close> returns the result of the search of the
  data nodes of that \<open>input\<close> statement for the name of \<open>x\<close>. And whenever the
  statement found (in any branch) is an \<open>rpc\<close> statement that has an \<open>input\<close>
  sub-statement, the function returns that sub-statement instead.
\<close>

theorem xml_child_spec_rpc:
  "(xml_spec xp = Some yparent \<and> ys_keyword yparent = Y_RPC \<and>
    yang_find yparent Y_INPUT None = Some yi \<longrightarrow>
      xml_child_spec env x (Some xp) yspec = (0, yang_find_datanode yi (xml_name x))) \<and>
   (xml_child_spec_find env x xq yspec = Some (Some y) \<and> ys_keyword y = Y_RPC \<and>
    yang_find y Y_INPUT None = Some yin \<longrightarrow>
      xml_child_spec env x xq yspec = (0, Some yin))"
proof (intro conjI impI)
  assume "xml_spec xp = Some yparent \<and> ys_keyword yparent = Y_RPC \<and>
    yang_find yparent Y_INPUT None = Some yi"
  then show "xml_child_spec env x (Some xp) yspec = (0, yang_find_datanode yi (xml_name x))"
    by (simp add: xml_child_spec_def xml_child_spec_find_def rpc_input_datanode)
next
  assume "xml_child_spec_find env x xq yspec = Some (Some y) \<and> ys_keyword y = Y_RPC \<and>
    yang_find y Y_INPUT None = Some yin"
  then show "xml_child_spec env x xq yspec = (0, Some yin)"
    by (simp add: xml_child_spec_def rpc_input_def)
qed

text \<open>
  In the module \<open>clixon-example\<close>: the child \<open>x\<close> of an element bound to the rpc
  \<open>example\<close> resolves to the leaf \<open>x\<close> of its input, and the top-level element
  \<open>example\<close> resolves to the input of the rpc.
\<close>

theorem xml_child_spec_rpc_witness:
  "xml_child_spec ex_resolver (ex_elem ''x'' None [ex_body ''0''])
     (Some (ex_elem ''example'' (Some ex_yang_rpc) [])) (Some [ex_yang_module]) =
     (0, Some ex_yang_x) \<and>
   xml_child_spec ex_resolver (ex_elem ''example'' None []) None (Some [ex_yang_module]) =
     (0, Some ex_yang_input)"
proof (rule conjI)
  have "xml_child_spec ex_resolver (ex_elem ''x'' None [ex_body ''0''])
     (Some (ex_elem ''example'' (Some ex_yang_rpc) [])) (Some [ex_yang_module]) =
     (0, yang_find_datanode ex_yang_input (xml_name (ex_elem ''x'' None [ex_body ''0''])))"
    using xml_child_spec_rpc[where xp = "ex_elem ''example'' (Some ex_yang_rpc) []"
        and yparent = ex_yang_rpc and yi = ex_yang_input]
    by (simp add: ex_elem_def ex_yang_rpc_def yang_find_def ex_yang_input_def)
  then show "xml_child_spec ex_resolver (ex_elem ''x'' None [ex_body ''0''])
     (Some (ex_elem ''example'' (Some ex_yang_rpc) [])) (Some [ex_yang_module]) =
     (0, Some ex_yang_x)"
    by (simp add: yang_find_datanode_def ex_yang_input_def ex_yang_x_def ex_elem_def yang_datanode_def)
  have "xml_child_spec_find ex_resolver (ex_elem ''example'' None []) None (Some [ex_yang_module]) =
          Some (Some ex_yang_rpc)"
    by (simp add: xml_child_spec_find_def ex_resolver_def ex_yang_module_def ex_yang_rpc_def
        ex_elem_def)
  with xml_child_spec_rpc[where env = ex_resolver and x = "ex_elem ''example'' None []"
      and xq = None and yspec = "Some [ex_yang_module]" and y = ex_yang_rpc and yin = ex_yang_input]
  show "xml_child_spec ex_resolver (ex_elem ''example'' None []) None (Some [ex_yang_module]) =
     (0, Some ex_yang_input)"
    by (simp add: ex_yang_rpc_def yang_find_def ex_yang_input_def)
qed

section \<open>The JSON encoding of an element without content\<close>

lemma xml2json1_children_attrs:
  "\<forall>c\<in>set cs. xml_type c = CX_ATTR \<Longrightarrow>
   xml2json1_children env anc cb xprev cs commas level pretty modname0 = (0, cb)"
  by (induction cs arbitrary: xprev) auto

lemma xml_child_nr_notype_0:
  "xml_child_nr_notype x CX_ATTR = 0 \<longleftrightarrow> (\<forall>c\<in>set (xml_childvec x). xml_type c = CX_ATTR)"
  by (auto simp: xml_child_nr_notype_def filter_empty_conv)

text \<open>
  Claim C6. An element in array position \<open>none\<close> that has no element or body children
  (attributes only, or nothing) is encoded as its member name, followed by \<open>{}\<close> when
  its statement is a container, by \<open>[null]\<close> when it is a leaf or a leaf-list, and by
  \<open>null\<close> otherwise, also when no statement is bound. The member name is left out in
  the flat mode; the debug mode of the pretty printer (\<open>pretty = 2\<close>) puts its tag in
  front.
\<close>

theorem xml2json1_cbuf_null_child:
  assumes "xml_type x = CX_ELMNT" and "xml_child_nr_notype x CX_ATTR = 0"
  shows "xml2json1_cbuf env anc cb x NO_ARRAY level pretty flat modname0 =
    (0, cb @ (if pretty = 2 then ''#no_array, null_child '' else []) @
         (if flat then []
          else json_member pretty level (fst (json_modname x modname0)) (xml_name x)) @
         (case map_option ys_keyword (xml_spec x) of
            Some Y_CONTAINER \<Rightarrow> ''{}''
          | Some Y_LEAF \<Rightarrow> ''[null]''
          | Some Y_LEAF_LIST \<Rightarrow> ''[null]''
          | _ \<Rightarrow> ''null''))"
proof (cases x)
  case (Cxobj ty name pfx val spec cv cs)
  from assms(2) have attrs: "\<forall>c\<in>set cs. xml_type c = CX_ATTR"
    by (simp add: xml_child_nr_notype_0 Cxobj)
  from assms have ct: "child_type x = NULL_CHILD"
    by (simp add: child_type_def)
  have kw: "(case map_option ys_keyword spec of
            Some Y_CONTAINER \<Rightarrow> ''{}''
          | Some Y_LEAF \<Rightarrow> ''[null]''
          | Some Y_LEAF_LIST \<Rightarrow> ''[null]''
          | _ \<Rightarrow> ''null'') =
        (if (case spec of Some y \<Rightarrow> ys_keyword y = Y_CONTAINER | None \<Rightarrow> False)
                   then ''{}''
                   else if (case spec of
                              Some y \<Rightarrow> ys_keyword y = Y_LEAF \<or> ys_keyword y = Y_LEAF_LIST
                            | None \<Rightarrow> False)
                   then ''[null]''
                   else ''null'')"
    by (cases spec) (auto split: rfc_6020.splits)
  obtain modname modname1 where mn: "json_modname x modname0 = (modname, modname1)"
    by (cases "json_modname x modname0")
  from ct have op: "json_open x NO_ARRAY level pretty flat modname =
     ((if \<not> flat then json_member pretty level modname (xml_name x) else []) @
      (if (case xml_spec x of Some y \<Rightarrow> ys_keyword y = Y_CONTAINER | None \<Rightarrow> False)
                   then ''{}''
                   else if (case xml_spec x of
                              Some y \<Rightarrow> ys_keyword y = Y_LEAF \<or> ys_keyword y = Y_LEAF_LIST
                            | None \<Rightarrow> False)
                   then ''[null]''
                   else ''null''), level)"
    by (simp add: json_open_def)
  from ct have cl: "json_close x NO_ARRAY level pretty = []"
    by (simp add: json_close_def)
  show ?thesis
    using mn op cl ct kw
    by (simp add: Cxobj xml2json1_children_attrs[OF attrs] arraytype2str_def childtype2str_def)
qed

text \<open>A container with an \<open>xmlns\<close> attribute, an empty leaf, an empty leaf-list entry and
  an unbound element.\<close>

theorem xml2json1_cbuf_null_child_witness:
  "xml2json1_cbuf ex_json_env [] [] (ex_elem ''c'' (Some ex_yang_c) [ex_xmlns ''urn:m''])
     NO_ARRAY 0 0 False None = (0, ''\"m:c\":{}'') \<and>
   xml2json1_cbuf ex_json_env [] [] (ex_elem ''e'' (Some ex_yang_leaf_empty) [])
     NO_ARRAY 0 0 False (Some ''m'') = (0, ''\"e\":[null]'') \<and>
   xml2json1_cbuf ex_json_env [] [] (ex_elem ''a'' (Some ex_yang_ll_str) [])
     NO_ARRAY 0 0 False (Some ''m'') = (0, ''\"a\":[null]'') \<and>
   xml2json1_cbuf ex_json_env [] [] (ex_elem ''u'' None [])
     NO_ARRAY 0 0 False (Some ''m'') = (0, ''\"u\":null'')"
proof (intro conjI)
  show "xml2json1_cbuf ex_json_env [] [] (ex_elem ''c'' (Some ex_yang_c) [ex_xmlns ''urn:m''])
     NO_ARRAY 0 0 False None = (0, ''\"m:c\":{}'')"
    by (subst xml2json1_cbuf_null_child)
       (simp_all add: ex_elem_def ex_xmlns_def ex_yang_c_def xml_child_nr_notype_def
          json_member_def json_modname_def json_indent_def json_sp_def)
  show "xml2json1_cbuf ex_json_env [] [] (ex_elem ''e'' (Some ex_yang_leaf_empty) [])
     NO_ARRAY 0 0 False (Some ''m'') = (0, ''\"e\":[null]'')"
    by (subst xml2json1_cbuf_null_child)
       (simp_all add: ex_elem_def ex_yang_leaf_empty_def xml_child_nr_notype_def
          json_member_def json_modname_def json_indent_def json_sp_def)
  show "xml2json1_cbuf ex_json_env [] [] (ex_elem ''a'' (Some ex_yang_ll_str) [])
     NO_ARRAY 0 0 False (Some ''m'') = (0, ''\"a\":[null]'')"
    by (subst xml2json1_cbuf_null_child)
       (simp_all add: ex_elem_def ex_yang_ll_str_def xml_child_nr_notype_def
          json_member_def json_modname_def json_indent_def json_sp_def)
  show "xml2json1_cbuf ex_json_env [] [] (ex_elem ''u'' None [])
     NO_ARRAY 0 0 False (Some ''m'') = (0, ''\"u\":null'')"
    by (subst xml2json1_cbuf_null_child)
       (simp_all add: ex_elem_def xml_child_nr_notype_def
          json_member_def json_modname_def json_indent_def json_sp_def)
qed

section \<open>The JSON encoding of a single entry of a leaf-list\<close>

text \<open>
  Claim C2 at its failing input. \<open>array_eval\<close> gives \<open>SINGLE_ARRAY\<close> to an element
  without equal neighbours only when its statement is a list. The container
  \<open><c><a>1</a></c>\<close>, where \<open>a\<close> is bound to a leaf-list of strings, is encoded with the
  bare member \<open>"a":"1"\<close>, not with the array \<open>"a":["1"]\<close>.
\<close>

theorem xml2json_single_leaf_list:
  "array_eval None (ex_elem ''a'' (Some ex_yang_ll_str) [ex_body ''1'']) None = NO_ARRAY \<and>
   xml2json_cbuf ex_json_env [] [] ex_single_leaf_list 0 = (0, ''{\"m:c\":{\"a\":\"1\"}}'')"
  by (simp add: array_eval_def xml_find_type_value_def xml2json_cbuf_def json_open_def
      json_close_def child_type_def xml_child_nr_notype_def json_member_def json_modname_def
      json_indent_def json_sp_def json_nl_def xml2json_encode_def
      ex_single_leaf_list_def ex_elem_def ex_body_def ex_yang_c_def ex_yang_ll_str_def)

section \<open>Top-level members of a JSON text must be qualified\<close>

lemma json_parse_member_unqualified:
  "xml_prefix x = None \<Longrightarrow>
   json_parse_member env yb (Some ysp) anc x =
     Ret (Member_leave 0 x (Some (Malformed_message (json_unqualified_message x))))"
  by (simp add: json_parse_member_def)

lemma json_parse_member_next_qualified:
  assumes "json_parse_member env yb (Some ysp) anc x = Ret (Member_next x' inc e)"
  shows "xml_prefix x \<noteq> None"
proof
  assume "xml_prefix x = None"
  from json_parse_member_unqualified[OF this, of env yb ysp anc] assms show False
    by simp
qed

lemma json_parse_loop_unqualified:
  "list_all (json_member_passes env yb (Some ysp) anc) pre \<Longrightarrow> xml_prefix x = None \<Longrightarrow>
   \<exists>pre' f. length pre' = length pre \<and>
     json_parse_loop env yb (Some ysp) anc (pre @ x # post) failed xerr =
       Ret (0, pre' @ x # post, f, Some (Malformed_message (json_unqualified_message x)))"
proof (induction pre arbitrary: failed xerr)
  case Nil
  then show ?case
    by (simp add: json_parse_member_unqualified xerr_set_def)
next
  case (Cons y pre)
  from Cons.prems(1) obtain y' inc e where
    m: "json_parse_member env yb (Some ysp) anc y = Ret (Member_next y' inc e)"
    by (auto simp: json_member_passes_def split: outcome.splits member_result.splits)
  from Cons.prems have "list_all (json_member_passes env yb (Some ysp) anc) pre"
    by simp
  from Cons.IH[OF this Cons.prems(2), of "if inc then Suc failed else failed" "xerr_set xerr e"]
  obtain pre' f where "length pre' = length pre"
    "json_parse_loop env yb (Some ysp) anc (pre @ x # post)
       (if inc then Suc failed else failed) (xerr_set xerr e) =
     Ret (0, pre' @ x # post, f, Some (Malformed_message (json_unqualified_message x)))"
    by blast
  with m have "length (y' # pre') = length (y # pre) \<and>
     json_parse_loop env yb (Some ysp) anc ((y # pre) @ x # post) failed xerr =
       Ret (0, (y' # pre') @ x # post, f, Some (Malformed_message (json_unqualified_message x)))"
    by simp
  then show ?case by blast
qed

lemma json_parse_member_leave:
  "json_parse_member env yb yspec anc x = Ret (Member_leave r x' e) \<Longrightarrow> r \<le> 0"
  by (auto simp: json_parse_member_def split: if_splits outcome.splits prod.splits)

lemma json_parse_loop_end:
  "json_parse_loop env yb (Some ysp) anc xvec failed xerr = Ret (r, xvec', failed', xerr') \<Longrightarrow>
   0 < r \<Longrightarrow> list_all (\<lambda>x. xml_prefix x \<noteq> None) xvec"
proof (induction xvec arbitrary: failed xerr xvec')
  case Nil
  then show ?case by simp
next
  case (Cons x xvec)
  show ?case
  proof (cases "json_parse_member env yb (Some ysp) anc x")
    case Fault
    with Cons.prems show ?thesis by simp
  next
    case (Ret m)
    show ?thesis
    proof (cases m)
      case (Member_leave r0 x' e)
      with Ret Cons.prems have "r = r0" by simp
      moreover from Ret Member_leave have "r0 \<le> 0"
        by (auto dest: json_parse_member_leave)
      ultimately show ?thesis using Cons.prems(2) by simp
    next
      case (Member_next x' inc e)
      with Ret have q: "xml_prefix x \<noteq> None"
        by (auto dest: json_parse_member_next_qualified)
      from Ret Member_next Cons.prems obtain xs' where
        "json_parse_loop env yb (Some ysp) anc xvec (if inc then Suc failed else failed)
           (xerr_set xerr e) = Ret (r, xs', failed', xerr')"
        by (auto split: outcome.splits)
      from Cons.IH[OF this Cons.prems(2)] q show ?thesis by simp
    qed
  qed
qed

lemma find_default_ns_map:
  "\<exists>c\<in>set cs. xml_type c = CX_ATTR \<and> xml_name c = ''xmlns'' \<Longrightarrow>
   map_option xml_value
     (find (\<lambda>c. xml_type c = CX_ATTR \<and> True \<and> strcmp ''xmlns'' (xml_name c) = 0)
        (map (\<lambda>c. if xml_type c = CX_ATTR \<and> xml_name c = ''xmlns''
                      then Cxobj CX_ATTR ''xmlns'' (xml_prefix c) ns (xml_spec c) (xml_cv c)
                             (xml_childvec c)
                      else c) cs)) = Some ns"
  by (induction cs) (auto simp: strcmp_eq_0)

lemma find_default_ns_append:
  "\<not> (\<exists>c\<in>set cs. xml_type c = CX_ATTR \<and> xml_name c = ''xmlns'') \<Longrightarrow>
   map_option xml_value
     (find (\<lambda>c. xml_type c = CX_ATTR \<and> True \<and> strcmp ''xmlns'' (xml_name c) = 0)
        (cs @ [Cxobj CX_ATTR ''xmlns'' None ns None None []])) = Some ns"
  by (induction cs) (auto simp: strcmp_eq_0)

lemma xml_namespace_change_default:
  "xml_find_type_value (xml_namespace_change x ns) None ''xmlns'' CX_ATTR = Some ns"
  "xml_prefix (xml_namespace_change x ns) = None"
  using find_default_ns_map[of "xml_childvec x" ns] find_default_ns_append[of "xml_childvec x" ns]
  by (auto simp: xml_namespace_change_def xml_find_type_value_def xml_default_ns_set_def
      simp del: strcmp.simps)

lemma json_xmlns_translate_unknown:
  assumes "xml_prefix x = Some m" and "yang_find_module_by_name ysp m = None"
  shows "json_xmlns_translate (Some ysp) x =
           Ret (0, x, Some (Unknown_namespace ''application'' m
                              ''No yang module found corresponding to prefix''))"
  using assms by (cases x) simp

lemma json_xmlns_translate_known:
  assumes "xml_prefix x = Some m" and "yang_find_module_by_name ysp m = Some ymod"
    and "yang_find_mynamespace ymod = Some ns"
    and "json_xmlns_translate (Some ysp) x = Ret (r, x', e)"
  shows "xml_prefix x' = None \<and> xml_find_type_value x' None ''xmlns'' CX_ATTR = Some ns"
  using assms
  by (cases x) (auto simp: xml_namespace_change_default split: outcome.splits)

text \<open>
  Claim C7, as amended. For a JSON text that parses and is decoded against a schema
  forest: when a top-level member has no module qualifier and every top-level member
  before it passes the body of the loop (namespace translation, binding, identityref
  decoding), the decoder returns 0 (invalid) with the malformed-message report that
  names the member; and with an unqualified top-level member anywhere the decoder never
  returns 1 (valid). For an element with a qualifier the module is looked up by name:
  when there is none, the translation returns 0 with an unknown-namespace report;
  otherwise the prefix of the element is cleared and its default namespace is the
  namespace URI of the module.
\<close>

theorem json_parse_top_level_qualifier:
  "(je_parse env str = Some (pre @ x # post) \<and> xml_prefix x = None \<and>
    list_all (json_member_passes env yb (Some ysp)
                (xml_childvec_set xt (xml_childvec xt @ pre @ x # post) # xt_anc)) pre \<longrightarrow>
      (\<exists>t. json_parse env str yb (Some ysp) xt xt_anc =
              Ret (0, t, Some (Malformed_message (json_unqualified_message x))))) \<and>
   (je_parse env str = Some xvec \<and> \<not> list_all (\<lambda>x. xml_prefix x \<noteq> None) xvec \<longrightarrow>
      (\<forall>t e. json_parse env str yb (Some ysp) xt xt_anc \<noteq> Ret (1, t, e))) \<and>
   (xml_prefix x = Some m \<and> yang_find_module_by_name ysp m = None \<longrightarrow>
      json_xmlns_translate (Some ysp) x =
        Ret (0, x, Some (Unknown_namespace ''application'' m
                           ''No yang module found corresponding to prefix''))) \<and>
   (xml_prefix x = Some m \<and> yang_find_module_by_name ysp m = Some ymod \<and>
    yang_find_mynamespace ymod = Some ns \<and>
    json_xmlns_translate (Some ysp) x = Ret (r, x', e') \<longrightarrow>
      xml_prefix x' = None \<and> xml_find_type_value x' None ''xmlns'' CX_ATTR = Some ns)"
proof (intro conjI impI)
  assume a: "je_parse env str = Some (pre @ x # post) \<and> xml_prefix x = None \<and>
    list_all (json_member_passes env yb (Some ysp)
                (xml_childvec_set xt (xml_childvec xt @ pre @ x # post) # xt_anc)) pre"
  from json_parse_loop_unqualified[of env yb ysp _ pre x post 0 None] a
  obtain pre' f where
    "json_parse_loop env yb (Some ysp)
       (xml_childvec_set xt (xml_childvec xt @ pre @ x # post) # xt_anc) (pre @ x # post) 0 None =
     Ret (0, pre' @ x # post, f, Some (Malformed_message (json_unqualified_message x)))"
    by blast
  with a show "\<exists>t. json_parse env str yb (Some ysp) xt xt_anc =
              Ret (0, t, Some (Malformed_message (json_unqualified_message x)))"
    by (simp add: json_parse_def)
next
  assume a: "je_parse env str = Some xvec \<and> \<not> list_all (\<lambda>x. xml_prefix x \<noteq> None) xvec"
  show "\<forall>t e. json_parse env str yb (Some ysp) xt xt_anc \<noteq> Ret (1, t, e)"
  proof (intro allI notI)
    fix t e
    assume r: "json_parse env str yb (Some ysp) xt xt_anc = Ret (1, t, e)"
    with a obtain r0 xvec' failed xerr where
      "json_parse_loop env yb (Some ysp) (xml_childvec_set xt (xml_childvec xt @ xvec) # xt_anc)
         xvec 0 None = Ret (r0, xvec', failed, xerr)" "0 < r0"
      by (auto simp: json_parse_def split: outcome.splits if_splits prod.splits)
    from json_parse_loop_end[OF this] a show False by simp
  qed
next
  assume "xml_prefix x = Some m \<and> yang_find_module_by_name ysp m = None"
  then show "json_xmlns_translate (Some ysp) x =
        Ret (0, x, Some (Unknown_namespace ''application'' m
                           ''No yang module found corresponding to prefix''))"
    by (simp add: json_xmlns_translate_unknown)
next
  assume a: "xml_prefix x = Some m \<and> yang_find_module_by_name ysp m = Some ymod \<and>
    yang_find_mynamespace ymod = Some ns \<and>
    json_xmlns_translate (Some ysp) x = Ret (r, x', e')"
  with json_xmlns_translate_known[of x m ysp ymod ns r x' e']
  show "xml_prefix x' = None" and "xml_find_type_value x' None ''xmlns'' CX_ATTR = Some ns"
    by simp_all
qed

text \<open>
  The text \<open>{"clixon-example:input":{"x":0},"b":2}\<close>: the first member passes, the
  second has no qualifier. And an element with the prefix of a module that does not
  exist.
\<close>

lemma ex_parse_b:
  "je_parse ex_json_env ''{\"clixon-example:input\":{\"x\":0},\"b\":2}'' =
     Some ([ex_pelem ''clixon-example'' ''input'' [ex_elem ''x'' None [ex_body ''0'']]] @
           ex_elem ''b'' None [ex_body ''2''] # [])"
  by (simp add: ex_json_env_def)

lemma ex_input_passes:
  "json_member_passes ex_json_env YB_NONE (Some [ex_yang_module]) anc
     (ex_pelem ''clixon-example'' ''input'' [ex_elem ''x'' None [ex_body ''0'']])"
  by (simp add: json_member_passes_def json_parse_member_def json_parse_bind_def
      json2xml_decode.simps json2xml_decode_node_def xml_namespace_change_def
      xml_default_ns_set_def xml_childvec_set_def xerr_set_def
      yang_find_module_by_name_def yang_find_mynamespace_def yang_find_def
      ex_pelem_def ex_elem_def ex_body_def ex_yang_module_def ex_yang_rpc_def)

theorem json_parse_top_level_qualifier_witness:
  "(\<exists>t. json_parse ex_json_env ''{\"clixon-example:input\":{\"x\":0},\"b\":2}'' YB_NONE
          (Some [ex_yang_module]) (ex_elem ''top'' None []) [] =
        Ret (0, t, Some (Malformed_message
          ''Top-level JSON object b is not qualified with namespace which is a MUST according to RFC 7951''))) \<and>
   json_xmlns_translate (Some [ex_yang_module]) (ex_pelem ''nomod'' ''a'' [ex_body ''1'']) =
     Ret (0, ex_pelem ''nomod'' ''a'' [ex_body ''1''],
          Some (Unknown_namespace ''application'' ''nomod''
                  ''No yang module found corresponding to prefix''))"
proof (rule conjI)
  note t = json_parse_top_level_qualifier[where env = ex_json_env
      and str = "''{\"clixon-example:input\":{\"x\":0},\"b\":2}''"
      and pre = "[ex_pelem ''clixon-example'' ''input'' [ex_elem ''x'' None [ex_body ''0'']]]"
      and x = "ex_elem ''b'' None [ex_body ''2'']" and post = "[]" and yb = YB_NONE
      and ysp = "[ex_yang_module]" and xt = "ex_elem ''top'' None []" and xt_anc = "[]"]
  have q: "xml_prefix (ex_elem ''b'' None [ex_body ''2'']) = None"
    by (simp add: ex_elem_def)
  from t ex_parse_b q ex_input_passes
  have "\<exists>t. json_parse ex_json_env ''{\"clixon-example:input\":{\"x\":0},\"b\":2}'' YB_NONE
          (Some [ex_yang_module]) (ex_elem ''top'' None []) [] =
        Ret (0, t, Some (Malformed_message
          (json_unqualified_message (ex_elem ''b'' None [ex_body ''2'']))))"
    by simp
  then show "\<exists>t. json_parse ex_json_env ''{\"clixon-example:input\":{\"x\":0},\"b\":2}'' YB_NONE
          (Some [ex_yang_module]) (ex_elem ''top'' None []) [] =
        Ret (0, t, Some (Malformed_message
          ''Top-level JSON object b is not qualified with namespace which is a MUST according to RFC 7951''))"
    by (simp add: json_unqualified_message_def ex_elem_def)
  note u = json_parse_top_level_qualifier[where x = "ex_pelem ''nomod'' ''a'' [ex_body ''1'']"
      and m = "''nomod''" and ysp = "[ex_yang_module]"]
  have "xml_prefix (ex_pelem ''nomod'' ''a'' [ex_body ''1'']) = Some ''nomod''"
    "yang_find_module_by_name [ex_yang_module] ''nomod'' = None"
    by (simp_all add: ex_pelem_def yang_find_module_by_name_def ex_yang_module_def)
  with u show "json_xmlns_translate (Some [ex_yang_module]) (ex_pelem ''nomod'' ''a'' [ex_body ''1'']) =
     Ret (0, ex_pelem ''nomod'' ''a'' [ex_body ''1''],
          Some (Unknown_namespace ''application'' ''nomod''
                  ''No yang module found corresponding to prefix''))"
    by blast
qed

text \<open>
  The claim as stated promises the malformed-message report whenever some top-level member
  has no qualifier. In \<open>{"nomod:a":1,"b":2}\<close> the member \<open>b\<close> has none, but the
  loop leaves at the first member, whose module does not exist: the report is
  unknown-namespace.
\<close>

theorem json_parse_earlier_failure_counterexample:
  "je_parse ex_json_env ''{\"nomod:a\":1,\"b\":2}'' =
     Some [ex_pelem ''nomod'' ''a'' [ex_body ''1''], ex_elem ''b'' None [ex_body ''2'']] \<and>
   xml_prefix (ex_elem ''b'' None [ex_body ''2'']) = None \<and>
   json_parse ex_json_env ''{\"nomod:a\":1,\"b\":2}'' YB_NONE (Some [ex_yang_module])
       (ex_elem ''top'' None []) [] =
     Ret (0, ex_elem ''top'' None
               [ex_pelem ''nomod'' ''a'' [ex_body ''1''], ex_elem ''b'' None [ex_body ''2'']],
          Some (Unknown_namespace ''application'' ''nomod''
                  ''No yang module found corresponding to prefix''))"
  by (simp add: json_parse_def json_parse_member_def xerr_set_def xml_childvec_set_def
      yang_find_module_by_name_def ex_json_env_def
      ex_pelem_def ex_elem_def ex_body_def ex_yang_module_def)

end
